theory Spec2Isabelle
  imports Main "HOL-Library.Char_ord" "HOL-Library.List_Lexorder"
begin

section \<open>JSON values and Python's view of them\<close>

text \<open>
  The server keeps every collection as parsed JSON: a task, an agent or a note is a Python
  dict from field names to JSON values, and a request body is such a dict too. A dict is
  an association list here (Python dicts keep insertion order). Numbers are integers: no
  handler below computes with a field value, it only tests truthiness and equality.
  Strings are compared by \<open>(<)\<close> on \<open>string\<close>, the lexicographic order on character
  codes that Python's \<open>str\<close> comparison is.
\<close>

datatype json = JNull | JBool bool | JNum int | JStr string
  | JArr "json list" | JObj "(string \<times> json) list"

type_synonym dict = "(string \<times> json) list"

datatype py_error = KeyError | TypeError | ValueError | AttributeError

text \<open>Truthiness, as \<open>if x:\<close>, \<open>not x\<close> and \<open>x or y\<close> read it.\<close>

fun truthy :: "json \<Rightarrow> bool" where
  "truthy JNull = False"
| "truthy (JBool b) = b"
| "truthy (JNum n) = (n \<noteq> 0)"
| "truthy (JStr s) = (s \<noteq> [])"
| "truthy (JArr xs) = (xs \<noteq> [])"
| "truthy (JObj kvs) = (kvs \<noteq> [])"

text \<open>
  Python's \<open>==\<close> on JSON values: \<open>True == 1\<close> and \<open>False == 0\<close> hold, lists are equal
  elementwise and dicts keywise whatever their order. \<open>canon\<close> maps equal values to one
  representative.
\<close>

fun canon :: "json \<Rightarrow> json" where
  "canon JNull = JNull"
| "canon (JBool b) = JNum (if b then 1 else 0)"
| "canon (JNum n) = JNum n"
| "canon (JStr s) = JStr s"
| "canon (JArr xs) = JArr (map canon xs)"
| "canon (JObj kvs) = JObj (sort_key fst (map (map_prod id canon) kvs))"

definition py_eq :: "json \<Rightarrow> json \<Rightarrow> bool" where
  "py_eq a b = (canon a = canon b)"

text \<open>\<open>hash(x)\<close> raises TypeError on a list or a dict: membership in a Python set needs it.\<close>

fun hashable :: "json \<Rightarrow> bool" where
  "hashable (JArr xs) = False"
| "hashable (JObj kvs) = False"
| "hashable v = True"

text \<open>\<open>d.get(k)\<close>, \<open>d.get(k, default)\<close>, \<open>k in d\<close>, \<open>d[k] = v\<close> and \<open>d.update(b)\<close>
  (which is also what \<open>{..., **b}\<close> does to the keys written before it).\<close>

definition py_get :: "dict \<Rightarrow> string \<Rightarrow> json" where
  "py_get d k = (case map_of d k of None \<Rightarrow> JNull | Some v \<Rightarrow> v)"

definition py_get_default :: "dict \<Rightarrow> string \<Rightarrow> json \<Rightarrow> json" where
  "py_get_default d k v0 = (case map_of d k of None \<Rightarrow> v0 | Some v \<Rightarrow> v)"

definition has_key :: "dict \<Rightarrow> string \<Rightarrow> bool" where
  "has_key d k = (map_of d k \<noteq> None)"

fun dict_set :: "dict \<Rightarrow> string \<Rightarrow> json \<Rightarrow> dict" where
  "dict_set [] k v = [(k, v)]"
| "dict_set ((k', v') # d) k v =
     (if k' = k then (k, v) # d else (k', v') # dict_set d k v)"

definition dict_update :: "dict \<Rightarrow> dict \<Rightarrow> dict" where
  "dict_update d b = fold (\<lambda>kv acc. dict_set acc (fst kv) (snd kv)) b d"

text \<open>\<open>xs[-n:]\<close> for \<open>n \<ge> 1\<close>: the last \<open>n\<close> elements, all of them when there are fewer.\<close>

definition lastn :: "nat \<Rightarrow> 'a list \<Rightarrow> 'a list" where
  "lastn n xs = drop (length xs - n) xs"

section \<open>The process state and what a handler does to the outside\<close>

text \<open>
  \<open>add_activity\<close> formats its message with an f-string around field values; the three
  messages the handlers below write are kept as their parts.
\<close>

datatype narration =
    New_task json
  | Task_moved json json
  | Auto_archived nat

record activity_entry =
  act_timestamp :: string
  act_message :: narration

record feed_entry =
  feed_id :: string
  feed_message :: json
  feed_type :: json
  feed_timestamp :: json

text \<open>
  What a handler does beyond its response, in the order the code does it: writing a data
  file, awaiting \<open>broadcast(...)\<close>, or handing a coroutine to \<open>asyncio.create_task\<close>.
\<close>

datatype effect =
    Save_tasks "dict list"
  | Save_agents "dict list"
  | Save_notes "dict list"
  | Save_activity "activity_entry list"
  | Broadcast json
  | Task_broadcast_activity activity_entry
  | Task_trigger_agent json

record world =
  tasks_file :: "dict list"
  agents_file :: "dict list option"
  notes_file :: "dict list"
  activity_file :: "activity_entry list"
  feed_entries :: "feed_entry list"
  trace :: "effect list"

text \<open>
  What one request reads from outside: \<open>str(uuid.uuid4())\<close>, and the clock as
  \<open>datetime.utcnow().isoformat()\<close>, as \<open>datetime.utcnow().strftime('%Y-%m-%d')\<close> and as
  \<open>(datetime.utcnow() - timedelta(days=7)).isoformat()\<close>.
\<close>

record env =
  uuid4 :: string
  utcnow_iso :: string
  utcnow_date :: string
  cutoff_iso :: string

record response =
  status :: nat
  payload :: json

definition message :: "string \<Rightarrow> json \<Rightarrow> json" where
  "message ty data = JObj [(''type'', JStr ty), (''data'', data)]"

definition broadcast :: "json \<Rightarrow> world \<Rightarrow> world" where
  "broadcast m w = w\<lparr>trace := trace w @ [Broadcast m]\<rparr>"

definition ok_response :: response where
  "ok_response = \<lparr>status = 200, payload = JObj [(''ok'', JBool True)]\<rparr>"

definition add_activity :: "env \<Rightarrow> narration \<Rightarrow> world \<Rightarrow> world" where
  "add_activity e m w =
     (let entry = \<lparr>act_timestamp = utcnow_iso e @ ''Z'', act_message = m\<rparr>;
          activity = lastn 500 (activity_file w @ [entry])
      in w\<lparr>activity_file := activity,
           trace := trace w @
             [Save_activity activity, Task_broadcast_activity entry]\<rparr>)"

section \<open>The live feed\<close>

definition FEED_VALID_TYPES :: "string list" where
  "FEED_VALID_TYPES = [''thinking'', ''working'', ''agent-spawned'', ''agent-completed'',
     ''agent-failed'', ''validating'', ''decision'', ''error'', ''completed'']"

fun join :: "string \<Rightarrow> string list \<Rightarrow> string" where
  "join sep [] = []"
| "join sep [x] = x"
| "join sep (x # y # ys) = x @ sep @ join sep (y # ys)"

definition invalid_type_response :: response where
  "invalid_type_response =
     \<lparr>status = 400,
      payload = JObj [(''error'', JStr (''Invalid type. Must be one of: '' @
                   join '', '' (sort FEED_VALID_TYPES)))]\<rparr>"

text \<open>
  \<open>prune_old_feed_entries\<close>: the comprehension slices and compares every timestamp, so
  one that is not a string raises (a number cannot be sliced, a list does not compare with
  a string), and the global is assigned only when none did.
\<close>

fun prune_old_feed_entries :: "string \<Rightarrow> feed_entry list \<Rightarrow> py_error + feed_entry list" where
  "prune_old_feed_entries today [] = Inr []"
| "prune_old_feed_entries today (x # xs) =
     (case feed_timestamp x of
        JStr ts \<Rightarrow>
          (case prune_old_feed_entries today xs of
             Inl err \<Rightarrow> Inl err
           | Inr ys \<Rightarrow> Inr (if today \<le> take 10 ts then x # ys else ys))
      | _ \<Rightarrow> Inl TypeError)"

definition entry_json :: "feed_entry \<Rightarrow> json" where
  "entry_json x = JObj [(''id'', JStr (feed_id x)), (''message'', feed_message x),
                        (''type'', feed_type x), (''timestamp'', feed_timestamp x)]"

definition post_feed_handler :: "env \<Rightarrow> dict \<Rightarrow> world \<Rightarrow> (py_error + response) \<times> world" where
  "post_feed_handler e body w =
     (let msg = py_get_default body ''message'' (JStr []);
          entry_type = py_get_default body ''type'' (JStr ''working'');
          ts = (if truthy (py_get body ''timestamp'') then py_get body ''timestamp''
                else JStr (utcnow_iso e @ ''Z''))
      in if \<not> hashable entry_type then (Inl TypeError, w)
         else if entry_type \<notin> JStr ` set FEED_VALID_TYPES then (Inr invalid_type_response, w)
         else
           (let entry_id = take 8 (uuid4 e);
                entry = \<lparr>feed_id = entry_id, feed_message = msg,
                         feed_type = entry_type, feed_timestamp = ts\<rparr>
            in case prune_old_feed_entries (utcnow_date e) (feed_entries w) of
                 Inl err \<Rightarrow> (Inl err, w)
               | Inr kept \<Rightarrow>
                   (Inr \<lparr>status = 201,
                         payload = JObj [(''ok'', JBool True), (''id'', JStr entry_id)]\<rparr>,
                    broadcast (message ''feed'' (entry_json entry))
                      (w\<lparr>feed_entries := kept @ [entry]\<rparr>))))"

text \<open>
  The \<open>limit\<close> query parameter after \<open>int(request.query.get('limit', '100'))\<close>: absent,
  a text \<open>int\<close> reads, or a text on which \<open>int\<close> raises ValueError.
\<close>

datatype query_int = Absent | Parsed int | Malformed

definition get_feed_handler ::
  "env \<Rightarrow> string \<Rightarrow> query_int \<Rightarrow> world \<Rightarrow> (py_error + response) \<times> world" where
  "get_feed_handler e since lim w =
     (case (case lim of Absent \<Rightarrow> Some 100 | Parsed n \<Rightarrow> Some n | Malformed \<Rightarrow> None) of
        None \<Rightarrow> (Inl ValueError, w)
      | Some n \<Rightarrow>
          (let limit = min 500 (max 1 n) in
           case prune_old_feed_entries (utcnow_date e) (feed_entries w) of
             Inl err \<Rightarrow> (Inl err, w)
           | Inr kept \<Rightarrow>
               (let entries =
                      (if since \<noteq> []
                       then filter (\<lambda>x. case feed_timestamp x of JStr ts \<Rightarrow> since < ts
                                                                | _ \<Rightarrow> False) kept
                       else kept);
                    result = lastn (nat limit) entries
                in (Inr \<lparr>status = 200, payload = JArr (map entry_json result)\<rparr>,
                    w\<lparr>feed_entries := kept\<rparr>))))"

section \<open>Tasks\<close>

definition save_tasks :: "dict list \<Rightarrow> world \<Rightarrow> world" where
  "save_tasks tasks w = w\<lparr>tasks_file := tasks, trace := trace w @ [Save_tasks tasks]\<rparr>"

text \<open>
  \<open>create_task_handler\<close>. The task is the dict literal
  \<open>{"id": ..., "createdAt": now, "startedAt": ..., "completedAt": ..., **body}\<close>: the
  body's keys are written last. \<open>assigned_to.startswith\<close> is reached when the value is
  truthy, and is an AttributeError when that value is not a string.
\<close>

definition create_task_handler :: "env \<Rightarrow> dict \<Rightarrow> world \<Rightarrow> (py_error + response) \<times> world" where
  "create_task_handler e body w =
     (let now = JStr (utcnow_iso e @ ''Z'');
          st = py_get_default body ''status'' (JStr ''todo'');
          task = dict_update
                   [(''id'', JStr (take 8 (uuid4 e))),
                    (''createdAt'', now),
                    (''startedAt'', if st = JStr ''in-progress'' then now else JNull),
                    (''completedAt'',
                       if st \<in> {JStr ''done'', JStr ''archive''} then now else JNull)]
                   body;
          w1 = save_tasks (tasks_file w @ [task]) w;
          w2 = add_activity e (New_task (py_get_default task ''title'' (JStr ''Untitled''))) w1;
          w3 = broadcast (message ''task_created'' (JObj task)) w2;
          assigned_to = py_get_default task ''assignedTo'' (JStr []);
          created = \<lparr>status = 201, payload = JObj task\<rparr>
      in if \<not> truthy assigned_to then (Inr created, w3)
         else (case assigned_to of
                 JStr s \<Rightarrow>
                   if take 6 s = ''Agent:''
                   then (Inr created,
                         w3\<lparr>trace := trace w3 @ [Task_trigger_agent (py_get task ''id'')]\<rparr>)
                   else (Inr created, w3)
               | _ \<Rightarrow> (Inl AttributeError, w3)))"

text \<open>
  The block of \<open>update_task_handler\<close> under \<open>if task['id'] == task_id\<close>: it returns the
  task after \<open>task.update(body)\<close>, the body (which the block may have extended with a
  stamp) and the narration \<open>add_activity\<close> is called with, if it is.
\<close>

definition update_matched :: "json \<Rightarrow> dict \<Rightarrow> dict \<Rightarrow> dict \<times> dict \<times> narration option" where
  "update_matched now body task =
     (let old_status = py_get task ''status'';
          new_status = py_get body ''status''
      in if truthy new_status \<and> \<not> py_eq new_status old_status then
           (let body1 =
                  (if new_status = JStr ''in-progress'' \<and> \<not> truthy (py_get task ''startedAt'')
                   then dict_set body ''startedAt'' now
                   else if new_status \<in> {JStr ''done'', JStr ''archive''}
                           \<and> \<not> truthy (py_get task ''completedAt'')
                   then dict_set body ''completedAt'' now
                   else body);
                task1 =
                  (if new_status = JStr ''done'' \<and> has_key body1 ''completedBy''
                   then dict_set task ''completedBy'' (py_get body1 ''completedBy'')
                   else task)
            in (dict_update task1 body1, body1,
                Some (Task_moved new_status (py_get_default task1 ''title'' (JStr ''Untitled'')))))
         else (dict_update task body, body, None))"

text \<open>The \<open>for task in tasks\<close> loop: \<open>task['id']\<close> is a KeyError on a task without an
  id; the first task with the id is updated and the loop breaks.\<close>

fun update_loop ::
  "string \<Rightarrow> json \<Rightarrow> dict \<Rightarrow> dict list \<Rightarrow> py_error + (dict list \<times> dict \<times> narration option)" where
  "update_loop task_id now body [] = Inr ([], body, None)"
| "update_loop task_id now body (task # rest) =
     (case map_of task ''id'' of
        None \<Rightarrow> Inl KeyError
      | Some i \<Rightarrow>
          if i = JStr task_id then
            (case update_matched now body task of
               (task', body', act) \<Rightarrow> Inr (task' # rest, body', act))
          else
            (case update_loop task_id now body rest of
               Inl err \<Rightarrow> Inl err
             | Inr (rest', body', act) \<Rightarrow> Inr (task # rest', body', act)))"

definition update_task_handler ::
  "env \<Rightarrow> string \<Rightarrow> dict \<Rightarrow> world \<Rightarrow> (py_error + response) \<times> world" where
  "update_task_handler e task_id body w =
     (case update_loop task_id (JStr (utcnow_iso e @ ''Z'')) body (tasks_file w) of
        Inl err \<Rightarrow> (Inl err, w)
      | Inr (tasks, body', act) \<Rightarrow>
          (let w1 = (case act of None \<Rightarrow> w | Some m \<Rightarrow> add_activity e m w);
               w2 = save_tasks tasks w1;
               w3 = broadcast (message ''task_updated''
                      (JObj (dict_update [(''id'', JStr task_id)] body'))) w2
           in (Inr ok_response, w3)))"

text \<open>
  \<open>archive_old_tasks_handler\<close>. The test of the loop is
  \<open>t.get('status') == 'done' and (t.get('completedAt') or '') < cutoff\<close>: the comparison
  is made only for a done task, and raises TypeError when the value compared is not a
  string. The loop changes a local list, so nothing is written when it raises.
\<close>

fun archive_loop :: "string \<Rightarrow> dict list \<Rightarrow> py_error + (dict list \<times> nat)" where
  "archive_loop cutoff [] = Inr ([], 0)"
| "archive_loop cutoff (t # ts) =
     (if py_get t ''status'' = JStr ''done'' then
        (case (if truthy (py_get t ''completedAt'') then py_get t ''completedAt''
               else JStr []) of
           JStr c \<Rightarrow>
             (case archive_loop cutoff ts of
                Inl err \<Rightarrow> Inl err
              | Inr (ts', n) \<Rightarrow>
                  if c < cutoff
                  then Inr (dict_set t ''status'' (JStr ''archive'') # ts', Suc n)
                  else Inr (t # ts', n))
         | _ \<Rightarrow> Inl TypeError)
      else
        (case archive_loop cutoff ts of
           Inl err \<Rightarrow> Inl err
         | Inr (ts', n) \<Rightarrow> Inr (t # ts', n)))"

definition archive_old_tasks_handler :: "env \<Rightarrow> world \<Rightarrow> (py_error + response) \<times> world" where
  "archive_old_tasks_handler e w =
     (case archive_loop (cutoff_iso e @ ''Z'') (tasks_file w) of
        Inl err \<Rightarrow> (Inl err, w)
      | Inr (tasks, count) \<Rightarrow>
          (Inr \<lparr>status = 200, payload = JObj [(''archived'', JNum (int count))]\<rparr>,
           if count \<noteq> 0
           then broadcast (message ''tasks_archived'' (JObj [(''count'', JNum (int count))]))
                  (add_activity e (Auto_archived count) (save_tasks tasks w))
           else w))"

section \<open>Agents\<close>

definition default_agents :: "dict list" where
  "default_agents =
     [[(''id'', JStr ''claude-opus''), (''name'', JStr ''Jarvis (Opus 4.6)''),
       (''model'', JStr ''claude-opus-4-6''), (''role'', JStr ''manager''),
       (''status'', JStr ''Idle''), (''statusEmoji'', JStr []),
       (''currentTask'', JNull)]]"

definition save_agents :: "dict list \<Rightarrow> world \<Rightarrow> world" where
  "save_agents agents w = w\<lparr>agents_file := Some agents, trace := trace w @ [Save_agents agents]\<rparr>"

definition get_agents :: "world \<Rightarrow> dict list \<times> world" where
  "get_agents w =
     (case agents_file w of
        None \<Rightarrow> (default_agents, save_agents default_agents w)
      | Some agents \<Rightarrow> (agents, w))"

definition working_statuses :: "string list" where
  "working_statuses = [''Working'', ''Thinking'', ''Checking'', ''Typing'', ''Delegating'',
     ''Heartbeat'', ''Managing'']"

text \<open>The block of \<open>update_agent_handler\<close> under \<open>if agent['id'] == agent_id\<close>.\<close>

definition agent_matched :: "json \<Rightarrow> dict \<Rightarrow> dict \<Rightarrow> dict" where
  "agent_matched now body agent =
     (let new_status = py_get body ''status'';
          old_status = py_get_default agent ''status'' (JStr ''Idle'');
          agent1 = dict_update agent body
      in if truthy new_status \<and> new_status \<in> JStr ` set working_statuses then
           (if old_status \<notin> JStr ` set working_statuses
               \<or> \<not> truthy (py_get agent1 ''startedWorkingAt'')
            then dict_set agent1 ''startedWorkingAt'' now
            else agent1)
         else if truthy new_status \<and> new_status \<in> {JStr ''Idle'', JStr ''Standby''} then
           dict_set agent1 ''startedWorkingAt'' JNull
         else agent1)"

fun agent_loop :: "string \<Rightarrow> json \<Rightarrow> dict \<Rightarrow> dict list \<Rightarrow> py_error + (dict list \<times> bool)" where
  "agent_loop agent_id now body [] = Inr ([], False)"
| "agent_loop agent_id now body (agent # rest) =
     (case map_of agent ''id'' of
        None \<Rightarrow> Inl KeyError
      | Some i \<Rightarrow>
          if i = JStr agent_id then Inr (agent_matched now body agent # rest, True)
          else
            (case agent_loop agent_id now body rest of
               Inl err \<Rightarrow> Inl err
             | Inr (rest', found) \<Rightarrow> Inr (agent # rest', found)))"

text \<open>\<open>next((a for a in agents if a['id'] == agent_id), None)\<close>.\<close>

fun find_agent :: "string \<Rightarrow> dict list \<Rightarrow> py_error + dict option" where
  "find_agent agent_id [] = Inr None"
| "find_agent agent_id (a # rest) =
     (case map_of a ''id'' of
        None \<Rightarrow> Inl KeyError
      | Some i \<Rightarrow> if i = JStr agent_id then Inr (Some a) else find_agent agent_id rest)"

definition update_agent_handler ::
  "env \<Rightarrow> string \<Rightarrow> dict \<Rightarrow> world \<Rightarrow> (py_error + response) \<times> world" where
  "update_agent_handler e agent_id body w =
     (case get_agents w of
        (agents0, w0) \<Rightarrow>
          (let now = JStr (utcnow_iso e @ ''Z'');
               new_status = py_get body ''status''
           in case agent_loop agent_id now body agents0 of
                Inl err \<Rightarrow> (Inl err, w0)
              | Inr (agents1, found) \<Rightarrow>
                  (let new_agent0 = dict_update [(''id'', JStr agent_id)] body;
                       new_agent =
                         (if truthy new_status \<and> new_status \<in> JStr ` set working_statuses
                          then dict_set new_agent0 ''startedWorkingAt'' now
                          else new_agent0);
                       agents = (if found then agents1 else agents1 @ [new_agent]);
                       agent_data0 = dict_update [(''id'', JStr agent_id)] body
                   in case find_agent agent_id agents of
                        Inl err \<Rightarrow> (Inl err, w0)
                      | Inr target \<Rightarrow>
                          (let agent_data =
                                 (case target of
                                    None \<Rightarrow> agent_data0
                                  | Some a \<Rightarrow>
                                      if a \<noteq> []
                                      then dict_set agent_data0 ''startedWorkingAt''
                                             (py_get a ''startedWorkingAt'')
                                      else agent_data0)
                           in (Inr ok_response,
                               broadcast (message ''agent_updated'' (JObj agent_data))
                                 (save_agents agents w0))))))"

section \<open>Notes\<close>

definition save_notes :: "dict list \<Rightarrow> world \<Rightarrow> world" where
  "save_notes notes w = w\<lparr>notes_file := notes, trace := trace w @ [Save_notes notes]\<rparr>"

text \<open>The loop of \<open>mark_note_read_handler\<close>: the first note with the id gets
  \<open>note['read'] = True\<close> and \<open>note['readAt'] = now\<close>.\<close>

fun mark_read_loop :: "string \<Rightarrow> json \<Rightarrow> dict list \<Rightarrow> py_error + dict list" where
  "mark_read_loop note_id now [] = Inr []"
| "mark_read_loop note_id now (note # rest) =
     (case map_of note ''id'' of
        None \<Rightarrow> Inl KeyError
      | Some i \<Rightarrow>
          if i = JStr note_id
          then Inr (dict_set (dict_set note ''read'' (JBool True)) ''readAt'' now # rest)
          else
            (case mark_read_loop note_id now rest of
               Inl err \<Rightarrow> Inl err
             | Inr rest' \<Rightarrow> Inr (note # rest')))"

definition mark_note_read_handler ::
  "env \<Rightarrow> string \<Rightarrow> world \<Rightarrow> (py_error + response) \<times> world" where
  "mark_note_read_handler e note_id w =
     (let now = JStr (utcnow_iso e @ ''Z'') in
      case mark_read_loop note_id now (notes_file w) of
        Inl err \<Rightarrow> (Inl err, w)
      | Inr notes \<Rightarrow>
          (Inr ok_response,
           broadcast (message ''note_updated''
                        (JObj [(''id'', JStr note_id), (''read'', JBool True), (''readAt'', now)]))
             (save_notes notes w)))"

section \<open>Vocabulary of the statements\<close>

text \<open>
  The timestamp of a feed entry as text, and sequences of task requests: a creation or an
  update, run one after the other from a state of the process, whatever each one answers.
\<close>

definition timestamp_text :: "feed_entry \<Rightarrow> string" where
  "timestamp_text x = (case feed_timestamp x of JStr ts \<Rightarrow> ts | _ \<Rightarrow> [])"

datatype task_op = Create_task env dict | Update_task env string dict

fun op_body :: "task_op \<Rightarrow> dict" where
  "op_body (Create_task e body) = body"
| "op_body (Update_task e task_id body) = body"

fun apply_task_op :: "task_op \<Rightarrow> world \<Rightarrow> world" where
  "apply_task_op (Create_task e body) w = snd (create_task_handler e body w)"
| "apply_task_op (Update_task e task_id body) w = snd (update_task_handler e task_id body w)"

fun run_task_ops :: "task_op list \<Rightarrow> world \<Rightarrow> world" where
  "run_task_ops [] w = w"
| "run_task_ops (x # xs) w = run_task_ops xs (apply_task_op x w)"

section \<open>Example states\<close>

definition example_env :: env where
  "example_env = \<lparr>uuid4 = ''1b4e28ba-2fa1-41d2-883f-0016d3cca427'',
     utcnow_iso = ''2026-11-03T15:13:00.000123'', utcnow_date = ''2026-11-03'',
     cutoff_iso = ''2026-10-27T15:13:00.000123''\<rparr>"

definition later_env :: env where
  "later_env = \<lparr>uuid4 = ''9f8b7c6d-5e4f-4a3b-8c2d-1e0f9a8b7c6d'',
     utcnow_iso = ''2026-11-03T16:45:10'', utcnow_date = ''2026-11-03'',
     cutoff_iso = ''2026-10-27T16:45:10''\<rparr>"

definition empty_world :: world where
  "empty_world = \<lparr>tasks_file = [], agents_file = None, notes_file = [], activity_file = [],
     feed_entries = [], trace = []\<rparr>"

definition example_feed :: "feed_entry list" where
  "example_feed =
     [\<lparr>feed_id = ''aaaaaaaa'', feed_message = JStr ''left over'', feed_type = JStr ''working'',
       feed_timestamp = JStr ''2026-11-02T23:50:00Z''\<rparr>,
      \<lparr>feed_id = ''bbbbbbbb'', feed_message = JStr ''one'', feed_type = JStr ''working'',
       feed_timestamp = JStr ''2026-11-03T09:00:00Z''\<rparr>,
      \<lparr>feed_id = ''cccccccc'', feed_message = JStr ''two'', feed_type = JStr ''error'',
       feed_timestamp = JStr ''2026-11-03T10:00:00Z''\<rparr>,
      \<lparr>feed_id = ''dddddddd'', feed_message = JStr ''three'', feed_type = JStr ''decision'',
       feed_timestamp = JStr ''2026-11-03T11:00:00Z''\<rparr>]"

definition backfilled_feed :: "feed_entry list" where
  "backfilled_feed =
     [\<lparr>feed_id = ''eeeeeeee'', feed_message = JStr ''build started'', feed_type = JStr ''working'',
       feed_timestamp = JStr ''2026-11-03T10:00:00Z''\<rparr>,
      \<lparr>feed_id = ''ffffffff'', feed_message = JStr ''build done'', feed_type = JStr ''completed'',
       feed_timestamp = JStr ''2026-11-03T11:00:00Z''\<rparr>,
      \<lparr>feed_id = ''abababab'', feed_message = JStr ''plan chosen'', feed_type = JStr ''decision'',
       feed_timestamp = JStr ''2026-11-03T09:00:00Z''\<rparr>]"

definition example_note :: dict where
  "example_note = [(''id'', JStr ''n1n1n1n1''), (''content'', JStr ''call back''),
     (''createdAt'', JStr ''2026-11-03T08:00:00Z''), (''read'', JBool False)]"

definition example_tasks :: "dict list" where
  "example_tasks =
     [[(''id'', JStr ''t1t1t1t1''), (''createdAt'', JStr ''2026-10-01T09:00:00Z''),
       (''startedAt'', JStr ''2026-10-02T09:00:00Z''),
       (''completedAt'', JStr ''2026-10-20T17:30:00Z''),
       (''title'', JStr ''Write report''), (''status'', JStr ''done'')],
      [(''id'', JStr ''t2t2t2t2''), (''createdAt'', JStr ''2026-11-01T09:00:00Z''),
       (''startedAt'', JNull), (''completedAt'', JStr ''2026-11-02T10:00:00Z''),
       (''title'', JStr ''Send invoice''), (''status'', JStr ''done'')],
      [(''id'', JStr ''t3t3t3t3''), (''createdAt'', JStr ''2026-11-02T09:00:00Z''),
       (''startedAt'', JStr ''2026-11-02T09:30:00Z''), (''completedAt'', JNull),
       (''title'', JStr ''Plan sprint''), (''status'', JStr ''in-progress'')]]"

definition undated_done_task :: dict where
  "undated_done_task =
     [(''id'', JStr ''t4t4t4t4''), (''createdAt'', JStr ''2026-11-03T09:00:00Z''),
      (''startedAt'', JNull), (''completedAt'', JNull),
      (''title'', JStr ''Imported item''), (''status'', JStr ''done'')]"

definition borderline_done_task :: dict where
  "borderline_done_task =
     [(''id'', JStr ''t5t5t5t5''), (''createdAt'', JStr ''2026-10-20T09:00:00Z''),
      (''startedAt'', JStr ''2026-10-21T09:00:00Z''),
      (''completedAt'', JStr ''2026-10-27T16:00:00Z''),
      (''title'', JStr ''Close books''), (''status'', JStr ''done'')]"

definition example_agents :: "dict list" where
  "example_agents =
     [[(''id'', JStr ''claude-opus''), (''name'', JStr ''Jarvis''), (''status'', JStr ''Idle''),
       (''startedWorkingAt'', JNull)],
      [(''id'', JStr ''scout''), (''name'', JStr ''Scout''), (''status'', JStr ''Working''),
       (''startedWorkingAt'', JStr ''2026-11-03T14:00:00Z'')],
      [(''id'', JStr ''legacy''), (''name'', JStr ''Legacy''), (''status'', JStr ''Working'')]]"

section \<open>Dictionaries and slices\<close>

lemma map_of_dict_set: "map_of (dict_set d k v) = (map_of d)(k \<mapsto> v)"
  by (induction d) (auto simp: fun_eq_iff)

lemma py_get_dict_set: "py_get (dict_set d k v) k' = (if k' = k then v else py_get d k')"
  by (simp add: py_get_def map_of_dict_set)

lemma map_of_dict_update:
  "map_of (dict_update d b) k =
     (case map_of (rev b) k of None \<Rightarrow> map_of d k | Some v \<Rightarrow> Some v)"
  unfolding dict_update_def
  by (induction b arbitrary: d) (auto simp: map_of_dict_set split: option.splits)

lemma has_key_iff: "has_key d k \<longleftrightarrow> k \<in> fst ` set d"
  by (simp add: has_key_def map_of_eq_None_iff)

lemma map_of_rev_distinct:
  "distinct (map fst xs) \<Longrightarrow> map_of (rev xs) k = map_of xs k"
proof (induction xs)
  case Nil
  then show ?case by simp
next
  case (Cons x xs)
  obtain a b where x: "x = (a, b)" by (cases x)
  have ih: "map_of (rev xs) k = map_of xs k" using Cons by simp
  have none: "map_of xs a = None"
    using Cons.prems x by (simp add: map_of_eq_None_iff)
  show ?case
    using ih none by (cases "k = a") (auto simp: x map_add_def split: option.splits)
qed

lemma map_of_dict_update_distinct:
  "distinct (map fst b) \<Longrightarrow>
   map_of (dict_update d b) k = (case map_of b k of None \<Rightarrow> map_of d k | Some v \<Rightarrow> Some v)"
  by (simp add: map_of_dict_update map_of_rev_distinct)

lemma map_of_dict_update_absent:
  "\<not> has_key b k \<Longrightarrow> map_of (dict_update d b) k = map_of d k"
proof -
  assume "\<not> has_key b k"
  then have "map_of (rev b) k = None"
    by (simp add: has_key_iff map_of_eq_None_iff)
  then show ?thesis by (simp add: map_of_dict_update)
qed

lemma py_get_dict_update_absent:
  "\<not> has_key b k \<Longrightarrow> py_get (dict_update d b) k = py_get d k"
  by (simp add: py_get_def map_of_dict_update_absent)

lemma has_key_dict_set: "has_key (dict_set b k v) k' \<longleftrightarrow> k' = k \<or> has_key b k'"
  by (simp add: has_key_def map_of_dict_set)

lemma dict_set_absent: "\<not> has_key b k \<Longrightarrow> dict_set b k v = b @ [(k, v)]"
  by (induction b) (auto simp: has_key_iff)

lemma py_get_update_set:
  assumes "\<not> has_key b k"
  shows "py_get (dict_update d (dict_set b k v)) k' =
           (if k' = k then v else py_get (dict_update d b) k')"
proof -
  have "dict_update d (dict_set b k v) = dict_set (dict_update d b) k v"
    using assms by (simp add: dict_set_absent dict_update_def)
  then show ?thesis by (simp add: py_get_dict_set)
qed

lemma has_key_dict_update: "has_key (dict_update d b) k \<longleftrightarrow> has_key d k \<or> has_key b k"
proof -
  have "map_of (rev b) k = None \<longleftrightarrow> \<not> has_key b k"
    by (simp add: has_key_iff map_of_eq_None_iff)
  then show ?thesis
    by (cases "map_of (rev b) k") (auto simp: has_key_def map_of_dict_update)
qed

lemma py_eq_JStr: "py_eq (JStr s) v \<longleftrightarrow> v = JStr s"
  by (cases v) (auto simp: py_eq_def)

lemma length_lastn: "length (lastn n xs) = min n (length xs)"
  by (simp add: lastn_def)

lemma set_lastn: "set (lastn n xs) \<subseteq> set xs"
  unfolding lastn_def by (rule set_drop_subset)

lemma sorted_drop_after_take:
  assumes "sorted (map f xs)"
  shows "sorted (map f (drop k xs)) \<and> (\<forall>x\<in>set (take k xs). \<forall>y\<in>set (drop k xs). f x \<le> f y)"
proof -
  have "sorted (map f (take k xs @ drop k xs))" using assms by simp
  then show ?thesis
    unfolding map_append sorted_append by auto
qed

section \<open>The live feed: posting, reading, pruning\<close>

lemma prune_strings:
  "(\<And>x. x \<in> set xs \<Longrightarrow> \<exists>ts. feed_timestamp x = JStr ts) \<Longrightarrow>
   prune_old_feed_entries today xs =
     Inr (filter (\<lambda>x. today \<le> take 10 (timestamp_text x)) xs)"
proof (induction xs)
  case Nil
  then show ?case by simp
next
  case (Cons x xs)
  obtain ts where ts: "feed_timestamp x = JStr ts" using Cons.prems by auto
  have "prune_old_feed_entries today xs =
     Inr (filter (\<lambda>x. today \<le> take 10 (timestamp_text x)) xs)"
    using Cons by simp
  then show ?case by (simp add: ts timestamp_text_def)
qed



lemma newer_text:
  "(case feed_timestamp x of JStr ts \<Rightarrow> since < ts | _ \<Rightarrow> False) = (since < timestamp_text x)"
  by (cases "feed_timestamp x") (simp_all add: timestamp_text_def)

lemma get_feed_strings:
  assumes strs: "\<And>x. x \<in> set (feed_entries w) \<Longrightarrow> \<exists>ts. feed_timestamp x = JStr ts"
    and lim: "lim = Absent \<and> n = 100 \<or> lim = Parsed n"
  shows "get_feed_handler e since lim w =
     (Inr \<lparr>status = 200, payload = JArr (map entry_json
        (lastn (nat (min 500 (max 1 n)))
           (filter (\<lambda>x. since = [] \<or> since < timestamp_text x)
              (filter (\<lambda>x. utcnow_date e \<le> take 10 (timestamp_text x)) (feed_entries w)))))\<rparr>,
      w\<lparr>feed_entries := filter (\<lambda>x. utcnow_date e \<le> take 10 (timestamp_text x)) (feed_entries w)\<rparr>)"
proof -
  let ?kept = "filter (\<lambda>x. utcnow_date e \<le> take 10 (timestamp_text x)) (feed_entries w)"
  have p: "prune_old_feed_entries (utcnow_date e) (feed_entries w) = Inr ?kept"
    using strs by (rule prune_strings)
  from lim show ?thesis
  proof
    assume "lim = Absent \<and> n = 100"
    then show ?thesis
      unfolding get_feed_handler_def Let_def by (simp add: p newer_text)
  next
    assume "lim = Parsed n"
    then show ?thesis
      unfolding get_feed_handler_def Let_def by (simp add: p newer_text)
  qed
qed

lemma post_feed_valid:
  assumes strs: "\<And>x. x \<in> set (feed_entries w) \<Longrightarrow> \<exists>ts. feed_timestamp x = JStr ts"
    and ty: "py_get_default body ''type'' (JStr ''working'') \<in> JStr ` set FEED_VALID_TYPES"
  shows "feed_entries (snd (post_feed_handler e body w)) =
     filter (\<lambda>x. utcnow_date e \<le> take 10 (timestamp_text x)) (feed_entries w) @
     [\<lparr>feed_id = take 8 (uuid4 e),
       feed_message = py_get_default body ''message'' (JStr []),
       feed_type = py_get_default body ''type'' (JStr ''working''),
       feed_timestamp = (if truthy (py_get body ''timestamp'') then py_get body ''timestamp''
                         else JStr (utcnow_iso e @ ''Z''))\<rparr>]"
proof -
  have p: "prune_old_feed_entries (utcnow_date e) (feed_entries w) =
      Inr (filter (\<lambda>x. utcnow_date e \<le> take 10 (timestamp_text x)) (feed_entries w))"
    using strs by (rule prune_strings)
  have h: "hashable (py_get_default body ''type'' (JStr ''working''))"
    using ty by auto
  show ?thesis
    unfolding post_feed_handler_def Let_def using ty h by (simp add: p broadcast_def)
qed




text \<open>
  Claim C5, as the code has it. A read answers with the last \<open>limit\<close> of the qualifying
  entries, in the order of the buffer, which is the order in which they were appended: the
  qualifying entries are those of the current day's buffer whose timestamp is greater than
  \<open>since\<close>, all of them when \<open>since\<close> is empty; \<open>limit\<close> is the parameter clamped to 1..500,
  and 100 when it is absent. So at most \<open>limit\<close> entries come back, and all qualifying ones
  when there are no more than \<open>limit\<close>. The read does not sort: when the qualifying
  entries stand in the buffer in non-decreasing timestamp order, the result is in that
  order too and no entry left out has a later timestamp than one returned. The timestamps
  of the buffer are strings.
\<close>

theorem get_feed_most_recent:
  assumes "\<forall>x\<in>set (feed_entries w). \<exists>ts. feed_timestamp x = JStr ts"
    and "lim = Absent \<and> n = 100 \<or> lim = Parsed n"
    and "limit = nat (min 500 (max 1 n))"
    and "qualifying = filter (\<lambda>x. since = [] \<or> since < timestamp_text x)
           (filter (\<lambda>x. utcnow_date e \<le> take 10 (timestamp_text x)) (feed_entries w))"
  shows "\<exists>result.
           fst (get_feed_handler e since lim w) =
             Inr \<lparr>status = 200, payload = JArr (map entry_json result)\<rparr> \<and>
           result = drop (length qualifying - limit) qualifying \<and>
           length result = min limit (length qualifying) \<and>
           1 \<le> limit \<and> limit \<le> 500 \<and>
           (length qualifying \<le> limit \<longrightarrow> result = qualifying) \<and>
           (sorted (map timestamp_text qualifying) \<longrightarrow>
              sorted (map timestamp_text result) \<and>
              (\<forall>x\<in>set (take (length qualifying - limit) qualifying). \<forall>y\<in>set result.
                 timestamp_text x \<le> timestamp_text y))"
proof -
  have "fst (get_feed_handler e since lim w) =
      Inr \<lparr>status = 200, payload = JArr (map entry_json (lastn limit qualifying))\<rparr>"
    using get_feed_strings [of w lim n e since] assms by simp
  moreover have d: "lastn limit qualifying = drop (length qualifying - limit) qualifying"
    by (simp add: lastn_def)
  moreover have "1 \<le> limit \<and> limit \<le> 500"
    using assms(3) by auto
  moreover have "sorted (map timestamp_text qualifying) \<longrightarrow>
              sorted (map timestamp_text (lastn limit qualifying)) \<and>
              (\<forall>x\<in>set (take (length qualifying - limit) qualifying).
                 \<forall>y\<in>set (lastn limit qualifying). timestamp_text x \<le> timestamp_text y)"
    unfolding d using sorted_drop_after_take [of timestamp_text qualifying] by blast
  ultimately show ?thesis
    by (intro exI [of _ "lastn limit qualifying"]) (simp add: length_lastn)
qed

theorem get_feed_most_recent_witness:
  "fst (get_feed_handler example_env [] (Parsed 2) (empty_world\<lparr>feed_entries := example_feed\<rparr>)) =
     Inr \<lparr>status = 200, payload = JArr (map entry_json (drop 2 example_feed))\<rparr>"
proof -
  let ?w = "empty_world\<lparr>feed_entries := example_feed\<rparr>"
  have strs: "\<forall>x\<in>set (feed_entries ?w). \<exists>ts. feed_timestamp x = JStr ts"
    by (simp add: example_feed_def)
  have q: "filter (\<lambda>x. [] = [] \<or> [] < timestamp_text x)
           (filter (\<lambda>x. utcnow_date example_env \<le> take 10 (timestamp_text x)) (feed_entries ?w))
        = drop 1 example_feed"
    by (simp add: example_feed_def example_env_def timestamp_text_def)
  from get_feed_most_recent [OF strs, of "Parsed 2" 2 2 "drop 1 example_feed" "[]" example_env]
  show ?thesis
    unfolding q by (simp add: example_feed_def)
qed

theorem get_feed_backfilled_counterexample:
  "fst (get_feed_handler example_env [] (Parsed 1)
          (empty_world\<lparr>feed_entries := backfilled_feed\<rparr>)) =
     Inr \<lparr>status = 200, payload = JArr [entry_json (backfilled_feed ! 2)]\<rparr> \<and>
   feed_timestamp (backfilled_feed ! 2) = JStr ''2026-11-03T09:00:00Z'' \<and>
   feed_timestamp (backfilled_feed ! 1) = JStr ''2026-11-03T11:00:00Z'' \<and>
   timestamp_text (backfilled_feed ! 2) < timestamp_text (backfilled_feed ! 1)"
  by (simp add: get_feed_handler_def backfilled_feed_def example_env_def empty_world_def
      lastn_def timestamp_text_def Let_def)

text \<open>
Claim C6, as the code has it. A read prunes first: after it the buffer holds the entries
  of the current day only (those whose first ten timestamp characters are not below
  today's date), and the result is drawn from them, so an entry of an earlier day is in
  no read result and is not counted in it. An accepted post prunes before it appends:
  after it the buffer is the current day's entries followed by the new entry, which keeps
  the timestamp the caller gave whatever its date. The timestamps of the buffer are
  strings.
\<close>

theorem feed_pruned_on_read_and_post:
  assumes "\<forall>x\<in>set (feed_entries w). \<exists>ts. feed_timestamp x = JStr ts"
    and "lim = Absent \<or> lim = Parsed n"
    and "py_get_default body ''type'' (JStr ''working'') \<in> JStr ` set FEED_VALID_TYPES"
    and "todays = filter (\<lambda>x. utcnow_date e \<le> take 10 (timestamp_text x)) (feed_entries w)"
  shows "feed_entries (snd (get_feed_handler e since lim w)) = todays \<and>
         (\<exists>result. fst (get_feed_handler e since lim w) =
              Inr \<lparr>status = 200, payload = JArr (map entry_json result)\<rparr> \<and>
            set result \<subseteq> set todays \<and> length result \<le> length todays) \<and>
         (\<exists>entry. feed_entries (snd (post_feed_handler e body w)) = todays @ [entry] \<and>
            feed_timestamp entry =
              (if truthy (py_get body ''timestamp'') then py_get body ''timestamp''
               else JStr (utcnow_iso e @ ''Z'')))"
proof -
  from assms(2) obtain m where lim: "lim = Absent \<and> m = 100 \<or> lim = Parsed m"
    by auto
  let ?q = "filter (\<lambda>x. since = [] \<or> since < timestamp_text x) todays"
  let ?r = "lastn (nat (min 500 (max 1 m))) ?q"
  have g: "get_feed_handler e since lim w =
     (Inr \<lparr>status = 200, payload = JArr (map entry_json ?r)\<rparr>, w\<lparr>feed_entries := todays\<rparr>)"
    using get_feed_strings [of w lim m e since] assms(1) lim unfolding assms(4) by blast
  have sub: "set ?r \<subseteq> set todays"
    using set_lastn [of _ ?q] by auto
  have "length ?r \<le> length ?q"
    by (simp add: length_lastn)
  then have len: "length ?r \<le> length todays"
    using length_filter_le [of _ todays] le_trans by blast
  have read: "\<exists>result. fst (get_feed_handler e since lim w) =
              Inr \<lparr>status = 200, payload = JArr (map entry_json result)\<rparr> \<and>
            set result \<subseteq> set todays \<and> length result \<le> length todays"
    using g sub len by (intro exI [of _ ?r]) simp
  have post: "\<exists>entry. feed_entries (snd (post_feed_handler e body w)) = todays @ [entry] \<and>
            feed_timestamp entry =
              (if truthy (py_get body ''timestamp'') then py_get body ''timestamp''
               else JStr (utcnow_iso e @ ''Z''))"
    using post_feed_valid [of w body e] assms(1,3) unfolding assms(4) by simp
  show ?thesis using g read post by simp
qed

theorem feed_pruned_on_read_and_post_witness:
  "feed_entries (snd (get_feed_handler example_env [] Absent
       (empty_world\<lparr>feed_entries := example_feed\<rparr>))) = drop 1 example_feed \<and>
   (\<exists>entry. feed_entries (snd (post_feed_handler example_env [(''message'', JStr ''four'')]
       (empty_world\<lparr>feed_entries := example_feed\<rparr>))) = drop 1 example_feed @ [entry])"
proof -
  let ?w = "empty_world\<lparr>feed_entries := example_feed\<rparr>"
  have strs: "\<forall>x\<in>set (feed_entries ?w). \<exists>ts. feed_timestamp x = JStr ts"
    by (simp add: example_feed_def)
  have ty: "py_get_default [(''message'', JStr ''four'')] ''type'' (JStr ''working'')
      \<in> JStr ` set FEED_VALID_TYPES"
    by (simp add: py_get_default_def FEED_VALID_TYPES_def)
  have t: "drop 1 example_feed =
      filter (\<lambda>x. utcnow_date example_env \<le> take 10 (timestamp_text x)) (feed_entries ?w)"
    by (simp add: example_feed_def example_env_def timestamp_text_def)
  have l: "Absent = Absent \<or> Absent = Parsed 0" by simp
  from feed_pruned_on_read_and_post [OF strs l ty t, of "[]"]
  show ?thesis by blast
qed

theorem post_keeps_backdated_entry_counterexample:
  "feed_entries (snd (post_feed_handler example_env
       [(''message'', JStr ''late report''), (''type'', JStr ''working''),
        (''timestamp'', JStr ''2026-11-02T08:00:00Z'')] empty_world)) =
     [\<lparr>feed_id = ''1b4e28ba'', feed_message = JStr ''late report'', feed_type = JStr ''working'',
       feed_timestamp = JStr ''2026-11-02T08:00:00Z''\<rparr>] \<and>
   take 10 ''2026-11-02T08:00:00Z'' < utcnow_date example_env"
  by (simp add: post_feed_handler_def Let_def py_get_default_def py_get_def FEED_VALID_TYPES_def
      example_env_def empty_world_def broadcast_def)

section \<open>Marking a note read\<close>

lemma mark_read_loop_at:
  assumes "\<And>p. p \<in> set pre \<Longrightarrow> \<exists>i. map_of p ''id'' = Some i \<and> i \<noteq> JStr note_id"
    and "map_of note ''id'' = Some (JStr note_id)"
  shows "mark_read_loop note_id now (pre @ note # post) =
     Inr (pre @ dict_set (dict_set note ''read'' (JBool True)) ''readAt'' now # post)"
  using assms
proof (induction pre)
  case Nil
  then show ?case by simp
next
  case (Cons p pre)
  obtain i where i: "map_of p ''id'' = Some i" "i \<noteq> JStr note_id"
    using Cons.prems(1) [of p] by auto
  have "mark_read_loop note_id now (pre @ note # post) =
     Inr (pre @ dict_set (dict_set note ''read'' (JBool True)) ''readAt'' now # post)"
    using Cons by simp
  then show ?case using i by simp
qed

text \<open>
Claim C8, as the code has it. Marking a note read sets \<open>read\<close> to true and \<open>readAt\<close> to
  the time of this request on the first note that has the id, whatever \<open>readAt\<close> was
  before; the other fields and the other notes stay. The loop has no test of an earlier
  \<open>readAt\<close>.
\<close>

theorem mark_read_stamps_every_time:
  assumes "notes_file w = pre @ note # post"
    and "\<forall>p\<in>set pre. \<exists>i. map_of p ''id'' = Some i \<and> i \<noteq> JStr note_id"
    and "map_of note ''id'' = Some (JStr note_id)"
  shows "\<exists>note'. notes_file (snd (mark_note_read_handler e note_id w)) = pre @ note' # post \<and>
           fst (mark_note_read_handler e note_id w) = Inr ok_response \<and>
           py_get note' ''readAt'' = JStr (utcnow_iso e @ ''Z'') \<and>
           py_get note' ''read'' = JBool True \<and>
           (\<forall>k. k \<noteq> ''read'' \<and> k \<noteq> ''readAt'' \<longrightarrow> map_of note' k = map_of note k)"
proof -
  let ?n = "dict_set (dict_set note ''read'' (JBool True)) ''readAt'' (JStr (utcnow_iso e @ ''Z''))"
  have l: "mark_read_loop note_id (JStr (utcnow_iso e @ ''Z'')) (notes_file w) = Inr (pre @ ?n # post)"
    unfolding assms(1) using assms(2,3) by (intro mark_read_loop_at) auto
  have "notes_file (snd (mark_note_read_handler e note_id w)) = pre @ ?n # post"
    unfolding mark_note_read_handler_def Let_def l by (simp add: broadcast_def save_notes_def)
  moreover have "fst (mark_note_read_handler e note_id w) = Inr ok_response"
    unfolding mark_note_read_handler_def Let_def l by simp
  moreover have "py_get ?n ''readAt'' = JStr (utcnow_iso e @ ''Z'')"
    by (simp add: py_get_dict_set)
  moreover have "py_get ?n ''read'' = JBool True"
    by (simp add: py_get_dict_set)
  moreover have "\<forall>k. k \<noteq> ''read'' \<and> k \<noteq> ''readAt'' \<longrightarrow> map_of ?n k = map_of note k"
    by (simp add: map_of_dict_set)
  ultimately show ?thesis by blast
qed

theorem mark_read_stamps_every_time_witness:
  "\<exists>note'. notes_file (snd (mark_note_read_handler example_env ''n1n1n1n1''
       (empty_world\<lparr>notes_file := [example_note]\<rparr>))) = [note'] \<and>
     py_get note' ''readAt'' = JStr ''2026-11-03T15:13:00.000123Z''"
proof -
  have a: "notes_file (empty_world\<lparr>notes_file := [example_note]\<rparr>) = [] @ example_note # []"
    by simp
  have b: "\<forall>p\<in>set []. \<exists>i. map_of p ''id'' = Some i \<and> i \<noteq> JStr ''n1n1n1n1''"
    by simp
  have c: "map_of example_note ''id'' = Some (JStr ''n1n1n1n1'')"
    by (simp add: example_note_def)
  from mark_read_stamps_every_time [OF a b c, of example_env]
  show ?thesis by (auto simp: example_env_def)
qed

theorem mark_read_twice_counterexample:
  "py_get (hd (notes_file (snd (mark_note_read_handler example_env ''n1n1n1n1''
       (empty_world\<lparr>notes_file := [example_note]\<rparr>))))) ''readAt''
     = JStr ''2026-11-03T15:13:00.000123Z'' \<and>
   py_get (hd (notes_file (snd (mark_note_read_handler later_env ''n1n1n1n1''
       (snd (mark_note_read_handler example_env ''n1n1n1n1''
          (empty_world\<lparr>notes_file := [example_note]\<rparr>))))))) ''readAt''
     = JStr ''2026-11-03T16:45:10Z''"
  by (simp add: mark_note_read_handler_def Let_def example_note_def example_env_def
      later_env_def empty_world_def broadcast_def save_notes_def py_get_def)

section \<open>Creating a task\<close>

lemma create_tail:
  "tasks_file (snd (if c then (x, w3)
      else (case a of JStr s \<Rightarrow> if p s then (x, w3\<lparr>trace := tr\<rparr>) else (x, w3)
            | _ \<Rightarrow> (y, w3)))) = tasks_file w3"
  by (cases a) auto

lemma create_task_stored:
  "tasks_file (snd (create_task_handler e body w)) = tasks_file w @
     [dict_update
        [(''id'', JStr (take 8 (uuid4 e))),
         (''createdAt'', JStr (utcnow_iso e @ ''Z'')),
         (''startedAt'', if py_get_default body ''status'' (JStr ''todo'') = JStr ''in-progress''
                         then JStr (utcnow_iso e @ ''Z'') else JNull),
         (''completedAt'',
            if py_get_default body ''status'' (JStr ''todo'') \<in> {JStr ''done'', JStr ''archive''}
            then JStr (utcnow_iso e @ ''Z'') else JNull)]
        body]"
  unfolding create_task_handler_def Let_def create_tail
  by (simp add: save_tasks_def add_activity_def broadcast_def Let_def)

text \<open>
Claim C9, as the code has it. The created task is appended to the collection and is the
  request body laid over four defaults: every field the body supplies is in the task with
  the body's value, and each of \<open>id\<close>, \<open>createdAt\<close>, \<open>startedAt\<close> and \<open>completedAt\<close> that the
  body does not supply has its default. The default id is the first eight characters of
  a new UUID, and is unlike every id of the collection when the token is (the handler does
  not compare them); the default \<open>createdAt\<close> is the current time; the default
  \<open>startedAt\<close> is the current time when the initial status is \<open>in-progress\<close> and null
  otherwise; the default \<open>completedAt\<close> is the current time when the initial status is
  \<open>done\<close> or \<open>archive\<close> and null otherwise.
\<close>

theorem create_task_defaults_under_body:
  assumes "distinct (map fst body)"
    and "st = py_get_default body ''status'' (JStr ''todo'')"
    and "now = JStr (utcnow_iso e @ ''Z'')"
  shows "\<exists>task. tasks_file (snd (create_task_handler e body w)) = tasks_file w @ [task] \<and>
           (\<forall>k v. map_of body k = Some v \<longrightarrow> map_of task k = Some v) \<and>
           (\<not> has_key body ''id'' \<longrightarrow> py_get task ''id'' = JStr (take 8 (uuid4 e)) \<and>
              ((\<forall>t\<in>set (tasks_file w). py_get t ''id'' \<noteq> JStr (take 8 (uuid4 e))) \<longrightarrow>
               (\<forall>t\<in>set (tasks_file w). py_get t ''id'' \<noteq> py_get task ''id''))) \<and>
           (\<not> has_key body ''createdAt'' \<longrightarrow> py_get task ''createdAt'' = now) \<and>
           (\<not> has_key body ''startedAt'' \<longrightarrow>
              py_get task ''startedAt'' = (if st = JStr ''in-progress'' then now else JNull)) \<and>
           (\<not> has_key body ''completedAt'' \<longrightarrow>
              py_get task ''completedAt'' =
                (if st = JStr ''done'' \<or> st = JStr ''archive'' then now else JNull))"
proof -
  let ?d = "[(''id'', JStr (take 8 (uuid4 e))), (''createdAt'', now),
         (''startedAt'', if st = JStr ''in-progress'' then now else JNull),
         (''completedAt'', if st \<in> {JStr ''done'', JStr ''archive''} then now else JNull)]"
  let ?t = "dict_update ?d body"
  have stored: "tasks_file (snd (create_task_handler e body w)) = tasks_file w @ [?t]"
    unfolding assms(2,3) by (rule create_task_stored)
  have supplied: "\<forall>k v. map_of body k = Some v \<longrightarrow> map_of ?t k = Some v"
    using assms(1) by (simp add: map_of_dict_update_distinct)
  have i: "\<not> has_key body ''id'' \<longrightarrow> py_get ?t ''id'' = JStr (take 8 (uuid4 e))"
    by (simp add: py_get_dict_update_absent) (simp add: py_get_def)
  have c: "\<not> has_key body ''createdAt'' \<longrightarrow> py_get ?t ''createdAt'' = now"
    by (simp add: py_get_dict_update_absent) (simp add: py_get_def)
  have s: "\<not> has_key body ''startedAt'' \<longrightarrow>
      py_get ?t ''startedAt'' = (if st = JStr ''in-progress'' then now else JNull)"
    by (simp add: py_get_dict_update_absent) (simp add: py_get_def)
  have d: "\<not> has_key body ''completedAt'' \<longrightarrow>
      py_get ?t ''completedAt'' = (if st = JStr ''done'' \<or> st = JStr ''archive'' then now else JNull)"
    by (simp add: py_get_dict_update_absent) (simp add: py_get_def)
  show ?thesis
    using stored supplied i c s d by (intro exI [of _ ?t]) simp
qed

theorem create_task_defaults_under_body_witness:
  "\<exists>task. tasks_file (snd (create_task_handler example_env
        [(''title'', JStr ''Write report''), (''status'', JStr ''in-progress'')]
        (empty_world\<lparr>tasks_file := example_tasks\<rparr>))) = example_tasks @ [task] \<and>
     map_of task ''title'' = Some (JStr ''Write report'') \<and>
     py_get task ''id'' = JStr ''1b4e28ba'' \<and>
     py_get task ''id'' \<notin> (\<lambda>t. py_get t ''id'') ` set example_tasks \<and>
     py_get task ''createdAt'' = JStr ''2026-11-03T15:13:00.000123Z'' \<and>
     py_get task ''startedAt'' = JStr ''2026-11-03T15:13:00.000123Z'' \<and>
     py_get task ''completedAt'' = JNull"
proof -
  let ?body = "[(''title'', JStr ''Write report''), (''status'', JStr ''in-progress'')]"
  have d: "distinct (map fst ?body)" by simp
  have st: "JStr ''in-progress'' = py_get_default ?body ''status'' (JStr ''todo'')"
    by (simp add: py_get_default_def)
  have now: "JStr ''2026-11-03T15:13:00.000123Z'' = JStr (utcnow_iso example_env @ ''Z'')"
    by (simp add: example_env_def)
  have keys: "\<not> has_key ?body ''id''" "\<not> has_key ?body ''createdAt''"
    "\<not> has_key ?body ''startedAt''" "\<not> has_key ?body ''completedAt''"
    by (simp_all add: has_key_def)
  have tok: "take 8 (uuid4 example_env) = ''1b4e28ba''"
    by (simp add: example_env_def)
  have fresh: "\<forall>t\<in>set (tasks_file (empty_world\<lparr>tasks_file := example_tasks\<rparr>)).
      py_get t ''id'' \<noteq> JStr (take 8 (uuid4 example_env))"
    unfolding tok by (simp add: example_tasks_def py_get_def)
  have title: "map_of ?body ''title'' = Some (JStr ''Write report'')" by simp
  from create_task_defaults_under_body [OF d st now,
      of "empty_world\<lparr>tasks_file := example_tasks\<rparr>"]
  obtain task where t: "tasks_file (snd (create_task_handler example_env ?body
        (empty_world\<lparr>tasks_file := example_tasks\<rparr>))) =
        tasks_file (empty_world\<lparr>tasks_file := example_tasks\<rparr>) @ [task]"
    "\<forall>k v. map_of ?body k = Some v \<longrightarrow> map_of task k = Some v"
    "\<not> has_key ?body ''id'' \<longrightarrow> py_get task ''id'' = JStr (take 8 (uuid4 example_env)) \<and>
       ((\<forall>t\<in>set (tasks_file (empty_world\<lparr>tasks_file := example_tasks\<rparr>)).
           py_get t ''id'' \<noteq> JStr (take 8 (uuid4 example_env))) \<longrightarrow>
        (\<forall>t\<in>set (tasks_file (empty_world\<lparr>tasks_file := example_tasks\<rparr>)).
           py_get t ''id'' \<noteq> py_get task ''id''))"
    "\<not> has_key ?body ''createdAt'' \<longrightarrow>
       py_get task ''createdAt'' = JStr ''2026-11-03T15:13:00.000123Z''"
    "\<not> has_key ?body ''startedAt'' \<longrightarrow> py_get task ''startedAt'' =
       (if JStr ''in-progress'' = JStr ''in-progress''
        then JStr ''2026-11-03T15:13:00.000123Z'' else JNull)"
    "\<not> has_key ?body ''completedAt'' \<longrightarrow> py_get task ''completedAt'' =
       (if JStr ''in-progress'' = JStr ''done'' \<or> JStr ''in-progress'' = JStr ''archive''
        then JStr ''2026-11-03T15:13:00.000123Z'' else JNull)"
    by blast
  have "py_get task ''id'' \<notin> (\<lambda>t. py_get t ''id'') ` set example_tasks"
    using t(3) keys(1) fresh by auto
  moreover have "map_of task ''title'' = Some (JStr ''Write report'')"
    using t(2) title by blast
  ultimately show ?thesis
    using t(1,3,4,5,6) keys tok by (intro exI [of _ task]) simp
qed

theorem create_task_body_overrides_counterexample:
  "fst (create_task_handler example_env
     [(''title'', JStr ''Write report''), (''id'', JStr ''t1t1t1t1''),
      (''createdAt'', JStr ''2020-01-01T00:00:00Z'')]
     (empty_world\<lparr>tasks_file := example_tasks\<rparr>)) =
   Inr \<lparr>status = 201, payload = JObj
     [(''id'', JStr ''t1t1t1t1''), (''createdAt'', JStr ''2020-01-01T00:00:00Z''),
      (''startedAt'', JNull), (''completedAt'', JNull), (''title'', JStr ''Write report'')]\<rparr> \<and>
   py_get (hd example_tasks) ''id'' = JStr ''t1t1t1t1'' \<and>
   JStr (utcnow_iso example_env @ ''Z'') \<noteq> JStr ''2020-01-01T00:00:00Z''"
  by (simp add: create_task_handler_def Let_def py_get_default_def py_get_def dict_update_def
      example_env_def example_tasks_def)

section \<open>Updating a task\<close>


lemma update_loop_at:
  assumes "\<And>p. p \<in> set pre \<Longrightarrow> \<exists>j. map_of p ''id'' = Some j \<and> j \<noteq> JStr task_id"
    and "map_of task ''id'' = Some (JStr task_id)"
  shows "update_loop task_id now body (pre @ task # post) =
     Inr (pre @ fst (update_matched now body task) # post,
          fst (snd (update_matched now body task)),
          snd (snd (update_matched now body task)))"
  using assms
proof (induction pre)
  case Nil
  then show ?case by (simp add: case_prod_beta)
next
  case (Cons p pre)
  obtain j where j: "map_of p ''id'' = Some j" "j \<noteq> JStr task_id"
    using Cons.prems(1) [of p] by auto
  have "update_loop task_id now body (pre @ task # post) =
     Inr (pre @ fst (update_matched now body task) # post,
          fst (snd (update_matched now body task)),
          snd (snd (update_matched now body task)))"
    using Cons by simp
  then show ?case using j by simp
qed





lemma update_matched_startedAt:
  assumes "\<not> has_key body ''startedAt''"
  shows "py_get (fst (update_matched now body task)) ''startedAt'' =
     (if py_get body ''status'' = JStr ''in-progress''
         \<and> py_get task ''status'' \<noteq> JStr ''in-progress''
         \<and> \<not> truthy (py_get task ''startedAt'')
      then now else py_get task ''startedAt'')"
proof (cases "py_get body ''status'' = JStr ''in-progress''")
  case True
  then show ?thesis
    using assms unfolding update_matched_def Let_def
    by (auto simp: py_eq_JStr py_get_update_set py_get_dict_update_absent)
next
  case False
  have a: "\<not> has_key (dict_set body ''completedAt'' now) ''startedAt''"
    using assms by (simp add: has_key_dict_set)
  show ?thesis
    using False assms a unfolding update_matched_def Let_def
    by (auto simp: py_get_dict_update_absent py_get_dict_set)
qed

lemma update_matched_completedAt:
  assumes "\<not> has_key body ''completedAt''"
  shows "py_get (fst (update_matched now body task)) ''completedAt'' =
     (if (py_get body ''status'' = JStr ''done'' \<or> py_get body ''status'' = JStr ''archive'')
         \<and> py_get task ''status'' \<noteq> py_get body ''status''
         \<and> \<not> truthy (py_get task ''completedAt'')
      then now else py_get task ''completedAt'')"
proof (cases "py_get body ''status'' = JStr ''done'' \<or> py_get body ''status'' = JStr ''archive''")
  case True
  then show ?thesis
    using assms unfolding update_matched_def Let_def
    by (auto simp: py_eq_JStr py_get_update_set py_get_dict_update_absent py_get_dict_set)
next
  case False
  have a: "\<not> has_key (dict_set body ''startedAt'' now) ''completedAt''"
    using assms by (simp add: has_key_dict_set)
  show ?thesis
    using False assms a unfolding update_matched_def Let_def
    by (auto simp: py_get_dict_update_absent py_get_dict_set)
qed

lemma update_loop_shape:
  "update_loop task_id now body ts = Inr (ts', b', a) \<Longrightarrow>
   list_all2 (\<lambda>t t'. t' = t \<or> t' = fst (update_matched now body t)) ts ts'"
proof (induction ts arbitrary: ts' b' a)
  case Nil
  then show ?case by simp
next
  case (Cons t ts)
  from Cons.prems obtain j where j: "map_of t ''id'' = Some j"
    by (auto split: option.splits)
  show ?case
  proof (cases "j = JStr task_id")
    case True
    then have "ts' = fst (update_matched now body t) # ts"
      using Cons.prems j by (auto simp: case_prod_beta)
    then show ?thesis by (simp add: list_all2_same)
  next
    case False
    then obtain us where us: "update_loop task_id now body ts = Inr (us, b', a)" "ts' = t # us"
      using Cons.prems j by (auto split: sum.splits)
    then show ?thesis using Cons.IH by simp
  qed
qed

lemma update_tasks_file:
  "tasks_file (snd (update_task_handler e task_id body w)) = tasks_file w \<or>
   (\<exists>ts b a. update_loop task_id (JStr (utcnow_iso e @ ''Z'')) body (tasks_file w) = Inr (ts, b, a)
      \<and> tasks_file (snd (update_task_handler e task_id body w)) = ts)"
proof (cases "update_loop task_id (JStr (utcnow_iso e @ ''Z'')) body (tasks_file w)")
  case (Inl err)
  then show ?thesis by (simp add: update_task_handler_def)
next
  case (Inr r)
  obtain ts b a where r: "r = (ts, b, a)" by (cases r)
  have "tasks_file (snd (update_task_handler e task_id body w)) = ts"
    unfolding update_task_handler_def Inr r
    by (simp add: Let_def save_tasks_def broadcast_def)
  then show ?thesis using Inr r by simp
qed

lemma update_step_keeps:
  assumes "\<not> has_key body ''startedAt''" "\<not> has_key body ''completedAt''"
    and "i < length (tasks_file w)"
    and "w' = snd (update_task_handler e task_id body w)"
  shows "i < length (tasks_file w') \<and>
     (truthy (py_get (tasks_file w ! i) ''startedAt'') \<longrightarrow>
        py_get (tasks_file w' ! i) ''startedAt'' = py_get (tasks_file w ! i) ''startedAt'') \<and>
     (truthy (py_get (tasks_file w ! i) ''completedAt'') \<longrightarrow>
        py_get (tasks_file w' ! i) ''completedAt'' = py_get (tasks_file w ! i) ''completedAt'')"
proof -
  let ?now = "JStr (utcnow_iso e @ ''Z'')"
  from update_tasks_file [of e task_id body w]
  show ?thesis
  proof
    assume "tasks_file (snd (update_task_handler e task_id body w)) = tasks_file w"
    then show ?thesis using assms(3,4) by simp
  next
    assume "\<exists>ts b a. update_loop task_id ?now body (tasks_file w) = Inr (ts, b, a)
      \<and> tasks_file (snd (update_task_handler e task_id body w)) = ts"
    then obtain ts b a where
      loop: "update_loop task_id ?now body (tasks_file w) = Inr (ts, b, a)"
      and ts: "tasks_file w' = ts"
      using assms(4) by auto
    have all2: "list_all2 (\<lambda>t t'. t' = t \<or> t' = fst (update_matched ?now body t)) (tasks_file w) ts"
      using loop by (rule update_loop_shape)
    then have len: "length ts = length (tasks_file w)"
      by (simp add: list_all2_lengthD)
    have "ts ! i = tasks_file w ! i \<or> ts ! i = fst (update_matched ?now body (tasks_file w ! i))"
      using all2 assms(3) by (simp add: list_all2_conv_all_nth)
    then show ?thesis
      using len assms(1,2,3) ts
      by (auto simp: update_matched_startedAt update_matched_completedAt)
  qed
qed

lemma create_step_keeps:
  assumes "i < length (tasks_file w)"
    and "w' = snd (create_task_handler e body w)"
  shows "i < length (tasks_file w') \<and> tasks_file w' ! i = tasks_file w ! i"
  using assms by (simp add: create_task_stored nth_append)

lemma run_keeps:
  assumes "\<And>x. x \<in> set ops \<Longrightarrow>
      \<not> has_key (op_body x) ''startedAt'' \<and> \<not> has_key (op_body x) ''completedAt''"
    and "i < length (tasks_file w)"
  shows "i < length (tasks_file (run_task_ops ops w)) \<and>
     (truthy (py_get (tasks_file w ! i) ''startedAt'') \<longrightarrow>
        py_get (tasks_file (run_task_ops ops w) ! i) ''startedAt'' =
        py_get (tasks_file w ! i) ''startedAt'') \<and>
     (truthy (py_get (tasks_file w ! i) ''completedAt'') \<longrightarrow>
        py_get (tasks_file (run_task_ops ops w) ! i) ''completedAt'' =
        py_get (tasks_file w ! i) ''completedAt'')"
  using assms
proof (induction ops arbitrary: w)
  case Nil
  then show ?case by simp
next
  case (Cons x xs)
  let ?w1 = "apply_task_op x w"
  have q: "\<not> has_key (op_body x) ''startedAt''" "\<not> has_key (op_body x) ''completedAt''"
    using Cons.prems(1) [of x] by simp_all
  have step: "i < length (tasks_file ?w1) \<and>
     (truthy (py_get (tasks_file w ! i) ''startedAt'') \<longrightarrow>
        py_get (tasks_file ?w1 ! i) ''startedAt'' = py_get (tasks_file w ! i) ''startedAt'') \<and>
     (truthy (py_get (tasks_file w ! i) ''completedAt'') \<longrightarrow>
        py_get (tasks_file ?w1 ! i) ''completedAt'' = py_get (tasks_file w ! i) ''completedAt'')"
  proof (cases x)
    case (Create_task e body)
    then show ?thesis
      using create_step_keeps [of i w _ e body] Cons.prems(2) by simp
  next
    case (Update_task e task_id body)
    then show ?thesis
      using update_step_keeps [of body i w _ e task_id] q Cons.prems(2) by simp
  qed
  have rest: "i < length (tasks_file (run_task_ops xs ?w1)) \<and>
     (truthy (py_get (tasks_file ?w1 ! i) ''startedAt'') \<longrightarrow>
        py_get (tasks_file (run_task_ops xs ?w1) ! i) ''startedAt'' =
        py_get (tasks_file ?w1 ! i) ''startedAt'') \<and>
     (truthy (py_get (tasks_file ?w1 ! i) ''completedAt'') \<longrightarrow>
        py_get (tasks_file (run_task_ops xs ?w1) ! i) ''completedAt'' =
        py_get (tasks_file ?w1 ! i) ''completedAt'')"
    using Cons.IH [of ?w1] Cons.prems(1) step by simp
  show ?case using step rest by auto
qed

text \<open>
Claim C1, as the code has it, for request bodies that carry no \<open>startedAt\<close> and no
  \<open>completedAt\<close> field of their own (an update merges its body into the task, so a body
  that carries one of them writes it). An update of a task sets its \<open>startedAt\<close> to the
  time of the request exactly when the new status is \<open>in-progress\<close>, is not the old
  status, and the task has no \<open>startedAt\<close> yet, and leaves it as it is otherwise; it sets
  its \<open>completedAt\<close> exactly when the new status is \<open>done\<close> or \<open>archive\<close>, is not the old
  status, and the task has no \<open>completedAt\<close> yet. Once a task has a \<open>startedAt\<close> (or a
  \<open>completedAt\<close>), no sequence of creations and updates changes it: going back to \<open>done\<close>
  from \<open>archive\<close> does not stamp again. A task is followed by its place in the collection,
  which creations and updates keep.
\<close>

theorem task_stamps_set_once:
  assumes "\<not> has_key body ''startedAt''" and "\<not> has_key body ''completedAt''"
    and "tasks_file w = pre @ task # post"
    and "\<forall>p\<in>set pre. \<exists>j. map_of p ''id'' = Some j \<and> j \<noteq> JStr task_id"
    and "map_of task ''id'' = Some (JStr task_id)"
    and "now = JStr (utcnow_iso e @ ''Z'')"
    and "\<forall>x\<in>set ops. \<not> has_key (op_body x) ''startedAt'' \<and> \<not> has_key (op_body x) ''completedAt''"
  shows "(\<exists>task'. tasks_file (snd (update_task_handler e task_id body w)) = pre @ task' # post \<and>
            py_get task' ''startedAt'' =
              (if py_get body ''status'' = JStr ''in-progress''
                  \<and> py_get task ''status'' \<noteq> JStr ''in-progress''
                  \<and> \<not> truthy (py_get task ''startedAt'')
               then now else py_get task ''startedAt'') \<and>
            py_get task' ''completedAt'' =
              (if (py_get body ''status'' = JStr ''done'' \<or> py_get body ''status'' = JStr ''archive'')
                  \<and> py_get task ''status'' \<noteq> py_get body ''status''
                  \<and> \<not> truthy (py_get task ''completedAt'')
               then now else py_get task ''completedAt'')) \<and>
         (\<forall>w0 i. i < length (tasks_file w0) \<longrightarrow>
            i < length (tasks_file (run_task_ops ops w0)) \<and>
            (truthy (py_get (tasks_file w0 ! i) ''startedAt'') \<longrightarrow>
               py_get (tasks_file (run_task_ops ops w0) ! i) ''startedAt'' =
               py_get (tasks_file w0 ! i) ''startedAt'') \<and>
            (truthy (py_get (tasks_file w0 ! i) ''completedAt'') \<longrightarrow>
               py_get (tasks_file (run_task_ops ops w0) ! i) ''completedAt'' =
               py_get (tasks_file w0 ! i) ''completedAt''))"
proof -
  let ?t = "fst (update_matched now body task)"
  have loop: "update_loop task_id now body (tasks_file w) =
     Inr (pre @ ?t # post, fst (snd (update_matched now body task)),
          snd (snd (update_matched now body task)))"
    unfolding assms(3) using assms(4,5) by (intro update_loop_at) auto
  have stored: "tasks_file (snd (update_task_handler e task_id body w)) = pre @ ?t # post"
    using loop unfolding update_task_handler_def assms(6) [symmetric]
    by (simp add: Let_def save_tasks_def broadcast_def case_prod_beta)
  have step: "\<exists>task'. tasks_file (snd (update_task_handler e task_id body w)) = pre @ task' # post \<and>
            py_get task' ''startedAt'' =
              (if py_get body ''status'' = JStr ''in-progress''
                  \<and> py_get task ''status'' \<noteq> JStr ''in-progress''
                  \<and> \<not> truthy (py_get task ''startedAt'')
               then now else py_get task ''startedAt'') \<and>
            py_get task' ''completedAt'' =
              (if (py_get body ''status'' = JStr ''done'' \<or> py_get body ''status'' = JStr ''archive'')
                  \<and> py_get task ''status'' \<noteq> py_get body ''status''
                  \<and> \<not> truthy (py_get task ''completedAt'')
               then now else py_get task ''completedAt'')"
    using stored update_matched_startedAt [OF assms(1)] update_matched_completedAt [OF assms(2)]
    by (intro exI [of _ ?t]) simp
  have later: "\<forall>w0 i. i < length (tasks_file w0) \<longrightarrow>
            i < length (tasks_file (run_task_ops ops w0)) \<and>
            (truthy (py_get (tasks_file w0 ! i) ''startedAt'') \<longrightarrow>
               py_get (tasks_file (run_task_ops ops w0) ! i) ''startedAt'' =
               py_get (tasks_file w0 ! i) ''startedAt'') \<and>
            (truthy (py_get (tasks_file w0 ! i) ''completedAt'') \<longrightarrow>
               py_get (tasks_file (run_task_ops ops w0) ! i) ''completedAt'' =
               py_get (tasks_file w0 ! i) ''completedAt'')"
    using run_keeps [of ops] assms(7) by blast
  from step later show ?thesis by (rule conjI)
qed

theorem task_stamps_set_once_witness:
  "\<exists>task'.
     tasks_file (snd (update_task_handler example_env ''t3t3t3t3'' [(''status'', JStr ''done'')]
        (empty_world\<lparr>tasks_file := example_tasks\<rparr>))) = take 2 example_tasks @ [task'] \<and>
     py_get task' ''startedAt'' = JStr ''2026-11-02T09:30:00Z'' \<and>
     py_get task' ''completedAt'' = JStr ''2026-11-03T15:13:00.000123Z'' \<and>
     py_get (tasks_file (run_task_ops
         [Update_task later_env ''t3t3t3t3'' [(''status'', JStr ''archive'')],
          Update_task later_env ''t3t3t3t3'' [(''status'', JStr ''done'')]]
         (snd (update_task_handler example_env ''t3t3t3t3'' [(''status'', JStr ''done'')]
            (empty_world\<lparr>tasks_file := example_tasks\<rparr>)))) ! 2) ''completedAt'' =
       JStr ''2026-11-03T15:13:00.000123Z''"
proof -
  let ?w = "empty_world\<lparr>tasks_file := example_tasks\<rparr>"
  let ?body = "[(''status'', JStr ''done'')]"
  let ?ops = "[Update_task later_env ''t3t3t3t3'' [(''status'', JStr ''archive'')],
          Update_task later_env ''t3t3t3t3'' [(''status'', JStr ''done'')]]"
  let ?w1 = "snd (update_task_handler example_env ''t3t3t3t3'' ?body ?w)"
  have k: "\<not> has_key ?body ''startedAt''" "\<not> has_key ?body ''completedAt''"
    by (simp_all add: has_key_def)
  have split: "tasks_file ?w = take 2 example_tasks @ example_tasks ! 2 # []"
    by (simp add: example_tasks_def)
  have pre: "\<forall>p\<in>set (take 2 example_tasks). \<exists>j. map_of p ''id'' = Some j \<and> j \<noteq> JStr ''t3t3t3t3''"
    by (simp add: example_tasks_def)
  have tid: "map_of (example_tasks ! 2) ''id'' = Some (JStr ''t3t3t3t3'')"
    by (simp add: example_tasks_def)
  have now: "JStr ''2026-11-03T15:13:00.000123Z'' = JStr (utcnow_iso example_env @ ''Z'')"
    by (simp add: example_env_def)
  have quiet: "\<forall>x\<in>set ?ops. \<not> has_key (op_body x) ''startedAt'' \<and> \<not> has_key (op_body x) ''completedAt''"
    by (simp add: has_key_def)
  have vals: "py_get ?body ''status'' = JStr ''done''"
    "py_get (example_tasks ! 2) ''status'' = JStr ''in-progress''"
    "py_get (example_tasks ! 2) ''startedAt'' = JStr ''2026-11-02T09:30:00Z''"
    "py_get (example_tasks ! 2) ''completedAt'' = JNull"
    by (simp_all add: py_get_def example_tasks_def)
  from task_stamps_set_once [OF k split pre tid now quiet]
  obtain task' where
    t: "tasks_file ?w1 = take 2 example_tasks @ [task']"
      "py_get task' ''startedAt'' = JStr ''2026-11-02T09:30:00Z''"
      "py_get task' ''completedAt'' = JStr ''2026-11-03T15:13:00.000123Z''"
    and later: "\<And>w0 i. i < length (tasks_file w0) \<Longrightarrow>
            truthy (py_get (tasks_file w0 ! i) ''completedAt'') \<Longrightarrow>
               py_get (tasks_file (run_task_ops ?ops w0) ! i) ''completedAt'' =
               py_get (tasks_file w0 ! i) ''completedAt''"
    unfolding vals by auto
  have at: "tasks_file ?w1 ! 2 = task'" "2 < length (tasks_file ?w1)"
    unfolding t(1) by (simp_all add: example_tasks_def)
  have "py_get (tasks_file (run_task_ops ?ops ?w1) ! 2) ''completedAt'' =
      JStr ''2026-11-03T15:13:00.000123Z''"
    using later [of 2 ?w1] at t(3) by simp
  then show ?thesis using t by (intro exI [of _ task']) simp
qed

theorem task_stamps_overwritten_counterexample:
  "py_get (example_tasks ! 2) ''startedAt'' = JStr ''2026-11-02T09:30:00Z'' \<and>
   py_get (tasks_file (snd (update_task_handler example_env ''t3t3t3t3''
       [(''status'', JStr ''done''), (''startedAt'', JStr ''2026-11-03T00:00:00Z'')]
       (empty_world\<lparr>tasks_file := example_tasks\<rparr>))) ! 2) ''startedAt'' =
     JStr ''2026-11-03T00:00:00Z'' \<and>
   py_get (example_tasks ! 0) ''completedAt'' = JStr ''2026-10-20T17:30:00Z'' \<and>
   py_get (tasks_file (snd (update_task_handler example_env ''t1t1t1t1''
       [(''status'', JStr ''archive''), (''completedAt'', JNull)]
       (empty_world\<lparr>tasks_file := example_tasks\<rparr>))) ! 0) ''completedAt'' = JNull"
  by (simp add: update_task_handler_def update_matched_def Let_def example_tasks_def
      empty_world_def save_tasks_def broadcast_def add_activity_def dict_update_def
      py_get_def py_get_default_def py_eq_def has_key_def)

section \<open>The archive sweep\<close>

lemma archive_loop_char:
  assumes "\<And>t. t \<in> set ts \<Longrightarrow> py_get t ''status'' = JStr ''done'' \<Longrightarrow>
             truthy (py_get t ''completedAt'') \<Longrightarrow> \<exists>c. py_get t ''completedAt'' = JStr c"
    and "eligible = (\<lambda>t. py_get t ''status'' = JStr ''done'' \<and>
           (\<not> truthy (py_get t ''completedAt'') \<or>
            (\<exists>c. py_get t ''completedAt'' = JStr c \<and> c < cutoff)))"
    and "cutoff \<noteq> []"
  shows "archive_loop cutoff ts =
     Inr (map (\<lambda>t. if eligible t then dict_set t ''status'' (JStr ''archive'') else t) ts,
          length (filter eligible ts))"
  using assms(1)
proof (induction ts)
  case Nil
  then show ?case by simp
next
  case (Cons t ts)
  have ih: "archive_loop cutoff ts =
     Inr (map (\<lambda>t. if eligible t then dict_set t ''status'' (JStr ''archive'') else t) ts,
          length (filter eligible ts))"
    using Cons by simp
  show ?case
  proof (cases "py_get t ''status'' = JStr ''done''")
    case False
    then have "\<not> eligible t" by (simp add: assms(2))
    then show ?thesis using False ih by simp
  next
    case isdone: True
    show ?thesis
    proof (cases "truthy (py_get t ''completedAt'')")
      case False
      then have e: "eligible t" using isdone by (simp add: assms(2))
      have "([]::string) < cutoff" using assms(3) by (cases cutoff) auto
      then show ?thesis using isdone False e ih by simp
    next
      case True
      then obtain c where c: "py_get t ''completedAt'' = JStr c"
        using Cons.prems [of t] isdone by auto
      have e: "eligible t = (c < cutoff)" using isdone c True by (simp add: assms(2))
      show ?thesis using isdone True c e ih by simp
    qed
  qed
qed

text \<open>
Claim C3, as the code has it. The sweep moves to \<open>archive\<close> exactly the tasks whose
  status is \<open>done\<close> and whose \<open>completedAt\<close> is either missing, null or empty, or a string
  below the cutoff (the clock minus seven days, as text): a done task without a
  \<open>completedAt\<close> is compared as the empty string, so it is archived too. Every other task
  stays as it is. The response carries the number of tasks changed; when it is not zero
  the handler writes the tasks, appends one activity entry and broadcasts
  \<open>tasks_archived\<close> with that number, in this order, and when it is zero it does nothing.
  The \<open>completedAt\<close> of a done task is a string when it is set.
\<close>

theorem archive_sweep_effect:
  assumes "\<forall>t\<in>set (tasks_file w). py_get t ''status'' = JStr ''done'' \<and>
             truthy (py_get t ''completedAt'') \<longrightarrow> (\<exists>c. py_get t ''completedAt'' = JStr c)"
    and "eligible = (\<lambda>t. py_get t ''status'' = JStr ''done'' \<and>
           (\<not> truthy (py_get t ''completedAt'') \<or>
            (\<exists>c. py_get t ''completedAt'' = JStr c \<and> c < cutoff_iso e @ ''Z'')))"
    and "n = length (filter eligible (tasks_file w))"
    and "tasks' = map (\<lambda>t. if eligible t then dict_set t ''status'' (JStr ''archive'') else t)
                    (tasks_file w)"
    and "entry = \<lparr>act_timestamp = utcnow_iso e @ ''Z'', act_message = Auto_archived n\<rparr>"
  shows "fst (archive_old_tasks_handler e w) =
           Inr \<lparr>status = 200, payload = JObj [(''archived'', JNum (int n))]\<rparr> \<and>
         (n = 0 \<longrightarrow> snd (archive_old_tasks_handler e w) = w) \<and>
         (0 < n \<longrightarrow>
            snd (archive_old_tasks_handler e w) =
              w\<lparr>tasks_file := tasks',
                activity_file := lastn 500 (activity_file w @ [entry]),
                trace := trace w @
                  [Save_tasks tasks',
                   Save_activity (lastn 500 (activity_file w @ [entry])),
                   Task_broadcast_activity entry,
                   Broadcast (message ''tasks_archived'' (JObj [(''count'', JNum (int n))]))]\<rparr>)"
proof -
  have loop: "archive_loop (cutoff_iso e @ ''Z'') (tasks_file w) = Inr (tasks', n)"
    unfolding assms(3,4)
    by (rule archive_loop_char [where eligible = eligible]) (use assms(1,2) in auto)
  show ?thesis
    unfolding archive_old_tasks_handler_def loop
    by (simp add: broadcast_def add_activity_def save_tasks_def Let_def assms(5))
qed

theorem archive_sweep_effect_witness:
  "fst (archive_old_tasks_handler example_env (empty_world\<lparr>tasks_file := example_tasks\<rparr>)) =
     Inr \<lparr>status = 200, payload = JObj [(''archived'', JNum 1)]\<rparr> \<and>
   tasks_file (snd (archive_old_tasks_handler example_env
       (empty_world\<lparr>tasks_file := example_tasks\<rparr>))) =
     dict_set (hd example_tasks) ''status'' (JStr ''archive'') # tl example_tasks"
proof -
  let ?w = "empty_world\<lparr>tasks_file := example_tasks\<rparr>"
  let ?el = "\<lambda>t. py_get t ''status'' = JStr ''done'' \<and>
           (\<not> truthy (py_get t ''completedAt'') \<or>
            (\<exists>c. py_get t ''completedAt'' = JStr c \<and> c < cutoff_iso example_env @ ''Z''))"
  have typed: "\<forall>t\<in>set (tasks_file ?w). py_get t ''status'' = JStr ''done'' \<and>
             truthy (py_get t ''completedAt'') \<longrightarrow> (\<exists>c. py_get t ''completedAt'' = JStr c)"
    by (simp add: example_tasks_def py_get_def)
  have n: "1 = length (filter ?el (tasks_file ?w))"
    by (simp add: example_tasks_def py_get_def example_env_def)
  have ts: "dict_set (hd example_tasks) ''status'' (JStr ''archive'') # tl example_tasks =
      map (\<lambda>t. if ?el t then dict_set t ''status'' (JStr ''archive'') else t) (tasks_file ?w)"
    by (simp add: example_tasks_def py_get_def example_env_def)
  from archive_sweep_effect [OF typed refl n ts refl]
  show ?thesis by simp
qed

theorem archive_sweep_undated_counterexample:
  "py_get undated_done_task ''completedAt'' = JNull \<and>
   archive_loop (cutoff_iso example_env @ ''Z'') [undated_done_task] =
     Inr ([dict_set undated_done_task ''status'' (JStr ''archive'')], 1) \<and>
   fst (archive_old_tasks_handler example_env (empty_world\<lparr>tasks_file := [undated_done_task]\<rparr>)) =
     Inr \<lparr>status = 200, payload = JObj [(''archived'', JNum 1)]\<rparr>"
  by (simp add: archive_old_tasks_handler_def undated_done_task_def example_env_def py_get_def)

lemma archive_loop_later:
  assumes "archive_loop cutoff ts = Inr (ts', n)"
    and "\<And>t c. t \<in> set ts \<Longrightarrow> py_get t ''status'' = JStr ''done'' \<Longrightarrow>
           (if truthy (py_get t ''completedAt'') then py_get t ''completedAt'' else JStr []) = JStr c \<Longrightarrow>
           c < cutoff' \<Longrightarrow> c < cutoff"
  shows "archive_loop cutoff' ts' = Inr (ts', 0)"
  using assms
proof (induction ts arbitrary: ts' n)
  case Nil
  then show ?case by simp
next
  case (Cons t ts)
  from Cons.prems(1) obtain us m where rest: "archive_loop cutoff ts = Inr (us, m)"
    by (auto split: if_splits json.splits sum.splits)
  have ih: "archive_loop cutoff' us = Inr (us, 0)"
  proof (rule Cons.IH [OF rest])
    fix u c
    assume "u \<in> set ts" "py_get u ''status'' = JStr ''done''"
      "(if truthy (py_get u ''completedAt'') then py_get u ''completedAt'' else JStr []) = JStr c"
      "c < cutoff'"
    then show "c < cutoff" using Cons.prems(2) [of u c] by simp
  qed
  show ?case
  proof (cases "py_get t ''status'' = JStr ''done''")
    case False
    then have "ts' = t # us" using Cons.prems(1) rest by simp
    then show ?thesis using False ih by simp
  next
    case isdone: True
    obtain c where c: "(if truthy (py_get t ''completedAt'') then py_get t ''completedAt''
               else JStr []) = JStr c"
      using Cons.prems(1) isdone by (auto split: json.splits if_splits)
    show ?thesis
    proof (cases "c < cutoff")
      case True
      then have "ts' = dict_set t ''status'' (JStr ''archive'') # us"
        using Cons.prems(1) rest isdone c by simp
      then show ?thesis using ih by (simp add: py_get_dict_set)
    next
      case False
      then have ts': "ts' = t # us"
        using Cons.prems(1) rest isdone c by simp
      have "\<not> c < cutoff'"
        using Cons.prems(2) [of t c] isdone c False by auto
      then show ?thesis using ts' ih isdone c by simp
    qed
  qed
qed

lemma archive_loop_zero:
  "archive_loop cutoff ts = Inr (ts', 0) \<Longrightarrow> ts' = ts"
proof (induction ts arbitrary: ts')
  case Nil
  then show ?case by simp
next
  case (Cons t ts)
  from Cons.prems obtain us m where rest: "archive_loop cutoff ts = Inr (us, m)"
    by (auto split: if_splits json.splits sum.splits)
  from Cons.prems rest have "m = 0 \<and> ts' = t # us"
    by (auto split: if_splits json.splits)
  then show ?case using Cons.IH rest by simp
qed

text \<open>
  Claim C4, as the code has it. Each sweep reads its cutoff from the clock. When a sweep
  has returned, a second sweep on the state it left answers 0 and leaves the state as it
  is (nothing is written, no activity entry is appended, nothing is broadcast), provided
  that no done task has a \<open>completedAt\<close> below the second sweep's cutoff that is not also
  below the first's: no task has crossed the seven days between the two. In particular
  this holds when both read the same cutoff. A sweep that answers 0 has changed nothing.
\<close>

theorem archive_sweep_twice:
  assumes "archive_old_tasks_handler e w = (Inr r, w')"
    and "\<forall>t\<in>set (tasks_file w). \<forall>c.
           py_get t ''status'' = JStr ''done'' \<and>
           (if truthy (py_get t ''completedAt'') then py_get t ''completedAt'' else JStr []) = JStr c \<and>
           c < cutoff_iso e' @ ''Z'' \<longrightarrow> c < cutoff_iso e @ ''Z''"
  shows "archive_old_tasks_handler e' w' =
           (Inr \<lparr>status = 200, payload = JObj [(''archived'', JNum 0)]\<rparr>, w') \<and>
         (payload r = JObj [(''archived'', JNum 0)] \<longrightarrow> w' = w)"
proof -
  from assms(1) obtain ts n where
    loop: "archive_loop (cutoff_iso e @ ''Z'') (tasks_file w) = Inr (ts, n)"
    unfolding archive_old_tasks_handler_def by (auto split: sum.splits)
  have r: "payload r = JObj [(''archived'', JNum (int n))]"
    using assms(1) loop unfolding archive_old_tasks_handler_def by auto
  have w': "w' = (if n \<noteq> 0
           then broadcast (message ''tasks_archived'' (JObj [(''count'', JNum (int n))]))
                  (add_activity e (Auto_archived n) (save_tasks ts w))
           else w)"
    using assms(1) loop unfolding archive_old_tasks_handler_def by auto
  have "n = 0 \<Longrightarrow> ts = tasks_file w"
    using loop archive_loop_zero by blast
  then have tf: "tasks_file w' = ts"
    unfolding w' by (simp add: broadcast_def add_activity_def save_tasks_def Let_def)
  have "archive_loop (cutoff_iso e' @ ''Z'') ts = Inr (ts, 0)"
    using loop by (rule archive_loop_later) (use assms(2) in blast)
  then have second: "archive_old_tasks_handler e' w' =
           (Inr \<lparr>status = 200, payload = JObj [(''archived'', JNum 0)]\<rparr>, w')"
    unfolding archive_old_tasks_handler_def tf by simp
  have "payload r = JObj [(''archived'', JNum 0)] \<longrightarrow> w' = w"
    using r w' by auto
  with second show ?thesis by simp
qed

lemma example_sweep:
  "fst (archive_old_tasks_handler example_env (empty_world\<lparr>tasks_file := example_tasks\<rparr>)) =
     Inr \<lparr>status = 200, payload = JObj [(''archived'', JNum 1)]\<rparr>"
  by (simp add: archive_old_tasks_handler_def example_tasks_def example_env_def py_get_def)

theorem archive_sweep_twice_witness:
  "archive_old_tasks_handler later_env
     (snd (archive_old_tasks_handler example_env (empty_world\<lparr>tasks_file := example_tasks\<rparr>))) =
   (Inr \<lparr>status = 200, payload = JObj [(''archived'', JNum 0)]\<rparr>,
    snd (archive_old_tasks_handler example_env (empty_world\<lparr>tasks_file := example_tasks\<rparr>)))"
proof -
  let ?w = "empty_world\<lparr>tasks_file := example_tasks\<rparr>"
  have first: "archive_old_tasks_handler example_env ?w =
      (Inr \<lparr>status = 200, payload = JObj [(''archived'', JNum 1)]\<rparr>,
       snd (archive_old_tasks_handler example_env ?w))"
    using example_sweep by (simp add: prod_eq_iff)
  have none_crosses: "\<forall>t\<in>set (tasks_file ?w). \<forall>c.
           py_get t ''status'' = JStr ''done'' \<and>
           (if truthy (py_get t ''completedAt'') then py_get t ''completedAt'' else JStr []) = JStr c \<and>
           c < cutoff_iso later_env @ ''Z'' \<longrightarrow> c < cutoff_iso example_env @ ''Z''"
    by (auto simp: example_tasks_def py_get_def example_env_def later_env_def)
  from archive_sweep_twice [OF first none_crosses] show ?thesis by simp
qed

theorem archive_sweep_later_clock_counterexample:
  "archive_old_tasks_handler example_env (empty_world\<lparr>tasks_file := [borderline_done_task]\<rparr>) =
     (Inr \<lparr>status = 200, payload = JObj [(''archived'', JNum 0)]\<rparr>,
      empty_world\<lparr>tasks_file := [borderline_done_task]\<rparr>) \<and>
   fst (archive_old_tasks_handler later_env
          (snd (archive_old_tasks_handler example_env
             (empty_world\<lparr>tasks_file := [borderline_done_task]\<rparr>)))) =
     Inr \<lparr>status = 200, payload = JObj [(''archived'', JNum 1)]\<rparr> \<and>
   tasks_file (snd (archive_old_tasks_handler later_env
          (snd (archive_old_tasks_handler example_env
             (empty_world\<lparr>tasks_file := [borderline_done_task]\<rparr>))))) =
     [dict_set borderline_done_task ''status'' (JStr ''archive'')]"
  by (simp add: archive_old_tasks_handler_def borderline_done_task_def example_env_def
      later_env_def py_get_def empty_world_def save_tasks_def add_activity_def broadcast_def Let_def)

section \<open>Updating an agent\<close>

lemma has_key_agent_matched:
  "has_key agent k \<Longrightarrow> has_key (agent_matched now body agent) k"
  unfolding agent_matched_def Let_def
  by (simp add: has_key_dict_set has_key_dict_update)

lemma agent_loop_at:
  assumes "\<And>p. p \<in> set pre \<Longrightarrow> \<exists>j. map_of p ''id'' = Some j \<and> j \<noteq> JStr agent_id"
    and "map_of agent ''id'' = Some (JStr agent_id)"
  shows "agent_loop agent_id now body (pre @ agent # post) =
     Inr (pre @ agent_matched now body agent # post, True)"
  using assms
proof (induction pre)
  case Nil
  then show ?case by simp
next
  case (Cons p pre)
  obtain j where j: "map_of p ''id'' = Some j" "j \<noteq> JStr agent_id"
    using Cons.prems(1) [of p] by auto
  have "agent_loop agent_id now body (pre @ agent # post) =
     Inr (pre @ agent_matched now body agent # post, True)"
    using Cons by simp
  then show ?case using j by simp
qed

lemma agent_loop_no_match:
  "(\<And>p. p \<in> set agents \<Longrightarrow> \<exists>j. map_of p ''id'' = Some j \<and> j \<noteq> JStr agent_id) \<Longrightarrow>
   agent_loop agent_id now body agents = Inr (agents, False)"
proof (induction agents)
  case Nil
  then show ?case by simp
next
  case (Cons p agents)
  obtain j where j: "map_of p ''id'' = Some j" "j \<noteq> JStr agent_id"
    using Cons.prems [of p] by auto
  have "agent_loop agent_id now body agents = Inr (agents, False)"
    using Cons by simp
  then show ?case using j by simp
qed

lemma find_agent_total:
  "(\<And>p. p \<in> set agents \<Longrightarrow> has_key p ''id'') \<Longrightarrow> \<exists>r. find_agent agent_id agents = Inr r"
proof (induction agents)
  case Nil
  then show ?case by simp
next
  case (Cons p agents)
  obtain j where j: "map_of p ''id'' = Some j"
    using Cons.prems [of p] by (auto simp: has_key_def)
  have "\<exists>r. find_agent agent_id agents = Inr r"
    using Cons by simp
  then show ?case using j by simp
qed

lemma update_agent_stored:
  assumes "agent_loop agent_id (JStr (utcnow_iso e @ ''Z'')) body (fst (get_agents w)) =
             Inr (agents1, found)"
    and "agents = (if found then agents1
           else agents1 @
             [if truthy (py_get body ''status'') \<and> py_get body ''status'' \<in> JStr ` set working_statuses
              then dict_set (dict_update [(''id'', JStr agent_id)] body) ''startedWorkingAt''
                     (JStr (utcnow_iso e @ ''Z''))
              else dict_update [(''id'', JStr agent_id)] body])"
    and "find_agent agent_id agents = Inr target"
  shows "agents_file (snd (update_agent_handler e agent_id body w)) = Some agents \<and>
         fst (update_agent_handler e agent_id body w) = Inr ok_response"
proof (cases found)
  case True
  have f: "find_agent agent_id agents1 = Inr target"
    using assms(2,3) True by simp
  show ?thesis
    unfolding update_agent_handler_def Let_def case_prod_beta assms(1)
    by (simp add: True f assms(2) save_agents_def broadcast_def)
next
  case False
  have f: "find_agent agent_id (agents1 @
             [if truthy (py_get body ''status'') \<and> py_get body ''status'' \<in> JStr ` set working_statuses
              then dict_set (dict_update [(''id'', JStr agent_id)] body) ''startedWorkingAt''
                     (JStr (utcnow_iso e @ ''Z''))
              else dict_update [(''id'', JStr agent_id)] body]) = Inr target"
    using assms(2,3) False by simp
  have a: "agents = agents1 @
             [if truthy (py_get body ''status'') \<and> py_get body ''status'' \<in> JStr ` set working_statuses
              then dict_set (dict_update [(''id'', JStr agent_id)] body) ''startedWorkingAt''
                     (JStr (utcnow_iso e @ ''Z''))
              else dict_update [(''id'', JStr agent_id)] body]"
    using assms(2) False by simp
  show ?thesis
    unfolding update_agent_handler_def Let_def case_prod_beta assms(1) a
    by (simp only: False f if_False fst_conv snd_conv sum.case)
       (simp add: save_agents_def broadcast_def)
qed

lemma busy_truthy: "v \<in> JStr ` set working_statuses \<Longrightarrow> truthy v"
  by (auto simp: working_statuses_def)

lemma idle_not_busy:
  "v \<in> {JStr ''Idle'', JStr ''Standby''} \<Longrightarrow> v \<notin> JStr ` set working_statuses \<and> truthy v"
  by (auto simp: working_statuses_def)

lemma agent_matched_started:
  assumes "new_status = py_get body ''status''"
    and "old_status = py_get_default agent ''status'' (JStr ''Idle'')"
    and "merged = dict_update agent body"
  shows "py_get (agent_matched now body agent) ''startedWorkingAt'' =
     (if new_status \<in> JStr ` set working_statuses then
        (if old_status \<notin> JStr ` set working_statuses
            \<or> \<not> truthy (py_get merged ''startedWorkingAt'')
         then now else py_get merged ''startedWorkingAt'')
      else if new_status \<in> {JStr ''Idle'', JStr ''Standby''} then JNull
      else py_get merged ''startedWorkingAt'')"
proof (cases "new_status \<in> JStr ` set working_statuses")
  case True
  then show ?thesis
    using busy_truthy [of new_status] unfolding agent_matched_def Let_def assms
    by (simp add: py_get_dict_set)
next
  case False
  show ?thesis
  proof (cases "new_status \<in> {JStr ''Idle'', JStr ''Standby''}")
    case True
    then show ?thesis
      using False idle_not_busy [of new_status] unfolding agent_matched_def Let_def assms
      by (simp add: py_get_dict_set)
  next
    case notidle: False
    then show ?thesis
      using False unfolding agent_matched_def Let_def assms by auto
  qed
qed

lemma update_agent_existing:
  assumes "fst (get_agents w) = pre @ agent # post"
    and "\<forall>p\<in>set pre. \<exists>j. map_of p ''id'' = Some j \<and> j \<noteq> JStr agent_id"
    and "map_of agent ''id'' = Some (JStr agent_id)"
    and "\<forall>p\<in>set post. has_key p ''id''"
    and "now = JStr (utcnow_iso e @ ''Z'')"
    and "new_status = py_get body ''status''"
    and "old_status = py_get_default agent ''status'' (JStr ''Idle'')"
    and "busy = JStr ` set working_statuses"
  shows "\<exists>agent'.
           agents_file (snd (update_agent_handler e agent_id body w)) = Some (pre @ agent' # post) \<and>
           fst (update_agent_handler e agent_id body w) = Inr ok_response \<and>
           (new_status \<in> busy \<and> old_status \<notin> busy \<longrightarrow>
              py_get agent' ''startedWorkingAt'' = now) \<and>
           (new_status \<in> busy \<and> old_status \<in> busy \<and> \<not> has_key body ''startedWorkingAt'' \<longrightarrow>
              py_get agent' ''startedWorkingAt'' =
                (if truthy (py_get agent ''startedWorkingAt'')
                 then py_get agent ''startedWorkingAt'' else now)) \<and>
           (new_status \<in> {JStr ''Idle'', JStr ''Standby''} \<longrightarrow>
              py_get agent' ''startedWorkingAt'' = JNull)"
proof -
  let ?a = "agent_matched now body agent"
  have loop: "agent_loop agent_id (JStr (utcnow_iso e @ ''Z'')) body (fst (get_agents w)) =
      Inr (pre @ ?a # post, True)"
    unfolding assms(1) assms(5) [symmetric] using assms(2,3) by (intro agent_loop_at) auto
  have "has_key agent ''id''" using assms(3) by (simp add: has_key_def)
  then have "has_key ?a ''id''" by (rule has_key_agent_matched)
  moreover have "\<And>p. p \<in> set pre \<Longrightarrow> has_key p ''id''"
    using assms(2) by (auto simp: has_key_def)
  ultimately have "\<And>p. p \<in> set (pre @ ?a # post) \<Longrightarrow> has_key p ''id''"
    using assms(4) by auto
  then obtain target where f: "find_agent agent_id (pre @ ?a # post) = Inr target"
    using find_agent_total [of "pre @ ?a # post" agent_id] by blast
  have stored: "agents_file (snd (update_agent_handler e agent_id body w)) = Some (pre @ ?a # post) \<and>
         fst (update_agent_handler e agent_id body w) = Inr ok_response"
    by (rule update_agent_stored [OF loop _ f]) simp
  have v: "py_get ?a ''startedWorkingAt'' =
     (if new_status \<in> busy then
        (if old_status \<notin> busy \<or> \<not> truthy (py_get (dict_update agent body) ''startedWorkingAt'')
         then now else py_get (dict_update agent body) ''startedWorkingAt'')
      else if new_status \<in> {JStr ''Idle'', JStr ''Standby''} then JNull
      else py_get (dict_update agent body) ''startedWorkingAt'')"
    unfolding assms(8) by (rule agent_matched_started [OF assms(6,7) refl])
  have nb: "new_status \<in> {JStr ''Idle'', JStr ''Standby''} \<Longrightarrow> new_status \<notin> busy"
    unfolding assms(8) using idle_not_busy by blast
  show ?thesis
    using stored v nb
    by (intro exI [of _ ?a]) (auto simp: py_get_dict_update_absent)
qed

lemma update_agent_created:
  assumes "\<And>p. p \<in> set (fst (get_agents w)) \<Longrightarrow> \<exists>j. map_of p ''id'' = Some j \<and> j \<noteq> JStr agent_id"
    and "now = JStr (utcnow_iso e @ ''Z'')"
    and "new_status = py_get body ''status''"
  shows "\<exists>agent'.
           agents_file (snd (update_agent_handler e agent_id body w)) =
             Some (fst (get_agents w) @ [agent']) \<and>
           fst (update_agent_handler e agent_id body w) = Inr ok_response \<and>
           (new_status \<in> JStr ` set working_statuses \<longrightarrow> py_get agent' ''startedWorkingAt'' = now) \<and>
           (new_status \<notin> JStr ` set working_statuses \<and> \<not> has_key body ''startedWorkingAt'' \<longrightarrow>
              py_get agent' ''startedWorkingAt'' = JNull)"
proof -
  let ?base = "dict_update [(''id'', JStr agent_id)] body"
  let ?n = "if truthy (py_get body ''status'') \<and> py_get body ''status'' \<in> JStr ` set working_statuses
            then dict_set ?base ''startedWorkingAt'' (JStr (utcnow_iso e @ ''Z'')) else ?base"
  have loop: "agent_loop agent_id (JStr (utcnow_iso e @ ''Z'')) body (fst (get_agents w)) =
      Inr (fst (get_agents w), False)"
    using assms(1) by (rule agent_loop_no_match)
  have n0: "has_key ?base ''id''" by (simp add: has_key_dict_update) (simp add: has_key_def)
  have "has_key (dict_set ?base ''startedWorkingAt'' (JStr (utcnow_iso e @ ''Z''))) ''id''"
    using n0 by (simp only: has_key_dict_set) simp
  then have "has_key ?n ''id''" using n0 by simp
  moreover have "\<And>p. p \<in> set (fst (get_agents w)) \<Longrightarrow> has_key p ''id''"
    using assms(1) by (auto simp: has_key_def)
  ultimately have "\<And>p. p \<in> set (fst (get_agents w) @ [?n]) \<Longrightarrow> has_key p ''id''"
    by auto
  then obtain target where f: "find_agent agent_id (fst (get_agents w) @ [?n]) = Inr target"
    using find_agent_total [of "fst (get_agents w) @ [?n]" agent_id] by blast
  have stored: "agents_file (snd (update_agent_handler e agent_id body w)) =
         Some (fst (get_agents w) @ [?n]) \<and>
         fst (update_agent_handler e agent_id body w) = Inr ok_response"
    by (rule update_agent_stored [OF loop _ f]) simp
  have b: "new_status \<in> JStr ` set working_statuses \<longrightarrow> py_get ?n ''startedWorkingAt'' = now"
    using busy_truthy [of new_status] unfolding assms(2,3) by (simp add: py_get_dict_set)
  have nb: "new_status \<notin> JStr ` set working_statuses \<and> \<not> has_key body ''startedWorkingAt'' \<longrightarrow>
              py_get ?n ''startedWorkingAt'' = JNull"
    unfolding assms(3) by (simp add: py_get_dict_update_absent) (simp add: py_get_def)
  show ?thesis
    using stored b nb by (intro exI [of _ ?n]) blast
qed

text \<open>
Claim C2, as the code has it. For an update of an agent that is in the collection (the
  first one with the id): when the new status is a busy label and the old status is not,
  \<open>startedWorkingAt\<close> becomes the current time; when both are busy labels and the body
  carries no \<open>startedWorkingAt\<close>, the field stays as it is if the agent has one, and
  becomes the current time if it has none (the guard \<open>or not
  agent.get('startedWorkingAt')\<close>); when the new status is \<open>Idle\<close> or \<open>Standby\<close> it becomes
  null. An update for an id that no agent has appends a new agent, whose
  \<open>startedWorkingAt\<close> is the current time when the new status is busy and is absent
  otherwise, unless the body carries one. An agent without a status counts as \<open>Idle\<close>.
\<close>

theorem agent_started_working_at:
  assumes "fst (get_agents w) = pre @ agent # post"
    and "\<forall>p\<in>set pre. \<exists>j. map_of p ''id'' = Some j \<and> j \<noteq> JStr agent_id"
    and "map_of agent ''id'' = Some (JStr agent_id)"
    and "\<forall>p\<in>set post. has_key p ''id''"
    and "now = JStr (utcnow_iso e @ ''Z'')"
    and "new_status = py_get body ''status''"
    and "old_status = py_get_default agent ''status'' (JStr ''Idle'')"
    and "busy = JStr ` set working_statuses"
  shows "(\<exists>agent'.
           agents_file (snd (update_agent_handler e agent_id body w)) = Some (pre @ agent' # post) \<and>
           fst (update_agent_handler e agent_id body w) = Inr ok_response \<and>
           (new_status \<in> busy \<and> old_status \<notin> busy \<longrightarrow>
              py_get agent' ''startedWorkingAt'' = now) \<and>
           (new_status \<in> busy \<and> old_status \<in> busy \<and> \<not> has_key body ''startedWorkingAt'' \<longrightarrow>
              py_get agent' ''startedWorkingAt'' =
                (if truthy (py_get agent ''startedWorkingAt'')
                 then py_get agent ''startedWorkingAt'' else now)) \<and>
           (new_status \<in> {JStr ''Idle'', JStr ''Standby''} \<longrightarrow>
              py_get agent' ''startedWorkingAt'' = JNull)) \<and>
         ((\<forall>p\<in>set (fst (get_agents w)). \<exists>j. map_of p ''id'' = Some j \<and> j \<noteq> JStr new_id) \<longrightarrow>
          (\<exists>created.
             agents_file (snd (update_agent_handler e new_id body w)) =
               Some (fst (get_agents w) @ [created]) \<and>
             (new_status \<in> busy \<longrightarrow> py_get created ''startedWorkingAt'' = now) \<and>
             (new_status \<notin> busy \<and> \<not> has_key body ''startedWorkingAt'' \<longrightarrow>
                py_get created ''startedWorkingAt'' = JNull)))"
proof (rule conjI)
  show "\<exists>agent'.
           agents_file (snd (update_agent_handler e agent_id body w)) = Some (pre @ agent' # post) \<and>
           fst (update_agent_handler e agent_id body w) = Inr ok_response \<and>
           (new_status \<in> busy \<and> old_status \<notin> busy \<longrightarrow>
              py_get agent' ''startedWorkingAt'' = now) \<and>
           (new_status \<in> busy \<and> old_status \<in> busy \<and> \<not> has_key body ''startedWorkingAt'' \<longrightarrow>
              py_get agent' ''startedWorkingAt'' =
                (if truthy (py_get agent ''startedWorkingAt'')
                 then py_get agent ''startedWorkingAt'' else now)) \<and>
           (new_status \<in> {JStr ''Idle'', JStr ''Standby''} \<longrightarrow>
              py_get agent' ''startedWorkingAt'' = JNull)"
    using assms by (rule update_agent_existing)
next
  show "(\<forall>p\<in>set (fst (get_agents w)). \<exists>j. map_of p ''id'' = Some j \<and> j \<noteq> JStr new_id) \<longrightarrow>
          (\<exists>created.
             agents_file (snd (update_agent_handler e new_id body w)) =
               Some (fst (get_agents w) @ [created]) \<and>
             (new_status \<in> busy \<longrightarrow> py_get created ''startedWorkingAt'' = now) \<and>
             (new_status \<notin> busy \<and> \<not> has_key body ''startedWorkingAt'' \<longrightarrow>
                py_get created ''startedWorkingAt'' = JNull))"
  proof
    assume a: "\<forall>p\<in>set (fst (get_agents w)). \<exists>j. map_of p ''id'' = Some j \<and> j \<noteq> JStr new_id"
    from update_agent_created [of w new_id now e new_status body] a assms(5,6)
    show "\<exists>created.
             agents_file (snd (update_agent_handler e new_id body w)) =
               Some (fst (get_agents w) @ [created]) \<and>
             (new_status \<in> busy \<longrightarrow> py_get created ''startedWorkingAt'' = now) \<and>
             (new_status \<notin> busy \<and> \<not> has_key body ''startedWorkingAt'' \<longrightarrow>
                py_get created ''startedWorkingAt'' = JNull)"
      unfolding assms(8) by blast
  qed
qed

theorem agent_started_working_at_witness:
  "(\<exists>agent'. agents_file (snd (update_agent_handler example_env ''scout''
        [(''status'', JStr ''Thinking'')] (empty_world\<lparr>agents_file := Some example_agents\<rparr>))) =
        Some (take 1 example_agents @ agent' # drop 2 example_agents) \<and>
      py_get agent' ''startedWorkingAt'' = JStr ''2026-11-03T14:00:00Z'') \<and>
   (\<exists>created. agents_file (snd (update_agent_handler example_env ''helper''
        [(''status'', JStr ''Thinking'')] (empty_world\<lparr>agents_file := Some example_agents\<rparr>))) =
        Some (example_agents @ [created]) \<and>
      py_get created ''startedWorkingAt'' = JStr ''2026-11-03T15:13:00.000123Z'')"
proof -
  let ?w = "empty_world\<lparr>agents_file := Some example_agents\<rparr>"
  let ?body = "[(''status'', JStr ''Thinking'')]"
  have g: "fst (get_agents ?w) = example_agents"
    by (simp add: get_agents_def)
  have split: "fst (get_agents ?w) = take 1 example_agents @ example_agents ! 1 # drop 2 example_agents"
    unfolding g by (simp add: example_agents_def)
  have pre: "\<forall>p\<in>set (take 1 example_agents). \<exists>j. map_of p ''id'' = Some j \<and> j \<noteq> JStr ''scout''"
    by (simp add: example_agents_def)
  have aid: "map_of (example_agents ! 1) ''id'' = Some (JStr ''scout'')"
    by (simp add: example_agents_def)
  have post: "\<forall>p\<in>set (drop 2 example_agents). has_key p ''id''"
    by (simp add: example_agents_def has_key_def)
  have now: "JStr ''2026-11-03T15:13:00.000123Z'' = JStr (utcnow_iso example_env @ ''Z'')"
    by (simp add: example_env_def)
  have new: "JStr ''Thinking'' = py_get ?body ''status''"
    by (simp add: py_get_def)
  have old: "JStr ''Working'' = py_get_default (example_agents ! 1) ''status'' (JStr ''Idle'')"
    by (simp add: py_get_default_def example_agents_def)
  have busy: "JStr ''Thinking'' \<in> JStr ` set working_statuses"
    "JStr ''Working'' \<in> JStr ` set working_statuses"
    by (simp_all add: working_statuses_def)
  have nokey: "\<not> has_key ?body ''startedWorkingAt''"
    by (simp add: has_key_def)
  have had: "py_get (example_agents ! 1) ''startedWorkingAt'' = JStr ''2026-11-03T14:00:00Z''"
    by (simp add: py_get_def example_agents_def)
  have unknown: "\<forall>p\<in>set (fst (get_agents ?w)). \<exists>j. map_of p ''id'' = Some j \<and> j \<noteq> JStr ''helper''"
    unfolding g by (simp add: example_agents_def)
  from agent_started_working_at [OF split pre aid post now new old refl, of "''helper''"]
  show ?thesis
    using busy nokey had unknown unfolding g by auto
qed

theorem agent_busy_to_busy_counterexample:
  "py_get (example_agents ! 2) ''status'' = JStr ''Working'' \<and>
   py_get (example_agents ! 2) ''startedWorkingAt'' = JNull \<and>
   map_option (\<lambda>agents. py_get (agents ! 2) ''startedWorkingAt'')
     (agents_file (snd (update_agent_handler example_env ''legacy''
        [(''status'', JStr ''Thinking'')] (empty_world\<lparr>agents_file := Some example_agents\<rparr>)))) =
     Some (JStr ''2026-11-03T15:13:00.000123Z'') \<and>
   py_get (example_agents ! 1) ''startedWorkingAt'' = JStr ''2026-11-03T14:00:00Z'' \<and>
   map_option (\<lambda>agents. py_get (agents ! 1) ''startedWorkingAt'')
     (agents_file (snd (update_agent_handler example_env ''scout''
        [(''status'', JStr ''Thinking''), (''startedWorkingAt'', JStr ''2026-11-03T15:00:00Z'')]
        (empty_world\<lparr>agents_file := Some example_agents\<rparr>)))) =
     Some (JStr ''2026-11-03T15:00:00Z'')"
  by (simp add: update_agent_handler_def get_agents_def agent_matched_def Let_def
      example_agents_def example_env_def empty_world_def working_statuses_def
      save_agents_def broadcast_def dict_update_def py_get_def py_get_default_def)

end
